theory Spec2Isabelle
  imports Complex_Main "HOL-Library.Log_Nat"
begin

section \<open>Decimal arithmetic of the default context\<close>

text \<open>
  The program computes with Python's \<^verbatim>\<open>decimal.Decimal\<close> under the default context, which
  it never changes: 28 significant digits, rounding half-even, and the traps
  DivisionByZero and InvalidOperation enabled. A finite decimal is modelled by its numeric
  value, a rational number (comparison and equality of decimals are numeric). Every
  arithmetic operation returns the exact result rounded to the precision of the context.
  The exponent limits of the context (\<open>10 ^ 999999\<close>) and the special values NaN and
  Infinity are outside the model.
\<close>

datatype error =
    DivisionByZero
  | InvalidOperation
  | NotEnoughDepth nat rat
  | NoTradesFound int
  | ExmoError
  | KeyError string
  | AttributeError

definition prec :: nat where
  "prec = 28"

definition pow10 :: "int \<Rightarrow> rat" where
  "pow10 e = (if 0 \<le> e then 10 ^ nat e else 1 / 10 ^ nat (- e))"

text \<open>\<open>adjusted a\<close> is the exponent of the leading digit of a positive \<open>a\<close>.\<close>

definition adjusted :: "rat \<Rightarrow> int" where
  "adjusted a =
     (let (p, q) = quotient_of a;
          d = int (floorlog 10 (nat p)) - int (floorlog 10 (nat q))
      in if pow10 d \<le> a then d else d - 1)"

definition round_half_even :: "rat \<Rightarrow> int" where
  "round_half_even x =
     (let f = \<lfloor>x\<rfloor>; r = x - of_int f
      in if r < 1 / 2 then f
         else if 1 / 2 < r then f + 1
         else if even f then f else f + 1)"

definition round_ctx :: "rat \<Rightarrow> rat" where
  "round_ctx x =
     (if x = 0 then 0
      else let a = \<bar>x\<bar>;
               e = adjusted a - (int prec - 1);
               n = round_half_even (a / pow10 e)
           in sgn x * of_int n * pow10 e)"

definition dec_add :: "rat \<Rightarrow> rat \<Rightarrow> rat" where
  "dec_add x y = round_ctx (x + y)"

definition dec_sub :: "rat \<Rightarrow> rat \<Rightarrow> rat" where
  "dec_sub x y = round_ctx (x - y)"

definition dec_mul :: "rat \<Rightarrow> rat \<Rightarrow> rat" where
  "dec_mul x y = round_ctx (x * y)"

definition dec_div :: "rat \<Rightarrow> rat \<Rightarrow> error + rat" where
  "dec_div x y =
     (if y = 0 then (if x = 0 then Inl InvalidOperation else Inl DivisionByZero)
      else Inr (round_ctx (x / y)))"

section \<open>Data model\<close>

datatype OrderType = MARKET | LIMIT

datatype OrderSide = BUY | SELL

datatype OrderStatus = PLACING | OPEN | PARTIAL | COMPLETED | CANCELED

record Ticker =
  high :: rat
  low :: rat
  avg :: rat
  vol :: rat
  vol_curr :: rat
  last_trade :: rat
  buy_price :: rat
  sell_price :: rat
  updated :: int

record PairAndRate =
  pair :: string
  calc_rate :: rat
  order_rate :: rat
  side :: OrderSide

record Order =
  order_id :: int
  exch_order_id :: int
  triarb_opportunity_id :: int
  created :: int
  order_pair :: string
  quantity :: rat
  price :: rat
  order_side :: OrderSide
  order_type_of :: OrderType
  status :: OrderStatus

record Fees =
  maker :: rat
  taker :: rat

section \<open>The rate calculators\<close>

datatype ArbCalculator =
    MarketOrderArbCalculator rat "string \<rightharpoonup> Ticker"
  | LimitOrderArbCalculator rat rat "string \<rightharpoonup> Ticker"

fun fee :: "ArbCalculator \<Rightarrow> rat" where
  "fee (MarketOrderArbCalculator f tk) = f"
| "fee (LimitOrderArbCalculator f off tk) = f"

fun tickers :: "ArbCalculator \<Rightarrow> (string \<rightharpoonup> Ticker)" where
  "tickers (MarketOrderArbCalculator f tk) = tk"
| "tickers (LimitOrderArbCalculator f off tk) = tk"

fun set_tickers :: "ArbCalculator \<Rightarrow> (string \<rightharpoonup> Ticker) \<Rightarrow> ArbCalculator" where
  "set_tickers (MarketOrderArbCalculator f tk) tk' = MarketOrderArbCalculator f tk'"
| "set_tickers (LimitOrderArbCalculator f off tk) tk' = LimitOrderArbCalculator f off tk'"

definition pair_name :: "string \<Rightarrow> string \<Rightarrow> string" where
  "pair_name a b = a @ ''_'' @ b"

text \<open>
  \<^verbatim>\<open>get_pair_and_rate\<close> of both calculators. The result is \<open>Inr None\<close> where the source
  returns \<^verbatim>\<open>None\<close>, and \<open>Inl\<close> where a division raises.
\<close>

fun get_pair_and_rate :: "ArbCalculator \<Rightarrow> string \<Rightarrow> string \<Rightarrow> error + PairAndRate option" where
  "get_pair_and_rate (LimitOrderArbCalculator f off tk) curr_a curr_b =
     (let pair_ab = pair_name curr_a curr_b;
          pair_ba = pair_name curr_b curr_a
      in case tk pair_ab of
           Some t \<Rightarrow>
             (case dec_div (dec_sub 1 f) (buy_price t) of
                Inl e \<Rightarrow> Inl e
              | Inr r \<Rightarrow>
                  (case dec_div r (dec_add 1 off) of
                     Inl e \<Rightarrow> Inl e
                   | Inr c \<Rightarrow>
                       Inr (Some \<lparr>pair = pair_ab, calc_rate = c,
                                  order_rate = dec_mul (buy_price t) (dec_add 1 off),
                                  side = BUY\<rparr>)))
         | None \<Rightarrow>
             (case tk pair_ba of
                Some t \<Rightarrow>
                  Inr (Some \<lparr>pair = pair_ba,
                             calc_rate = dec_mul (dec_mul (dec_sub 1 f) (sell_price t)) (dec_sub 1 off),
                             order_rate = dec_mul (sell_price t) (dec_sub 1 off),
                             side = SELL\<rparr>)
              | None \<Rightarrow> Inr None))"
| "get_pair_and_rate (MarketOrderArbCalculator f tk) curr_a curr_b =
     (let pair_ab = pair_name curr_a curr_b;
          pair_ba = pair_name curr_b curr_a
      in case tk pair_ab of
           Some t \<Rightarrow>
             (case dec_div (dec_sub 1 f) (sell_price t) of
                Inl e \<Rightarrow> Inl e
              | Inr c \<Rightarrow>
                  Inr (Some \<lparr>pair = pair_ab, calc_rate = c,
                             order_rate = sell_price t, side = BUY\<rparr>))
         | None \<Rightarrow>
             (case tk pair_ba of
                Some t \<Rightarrow>
                  Inr (Some \<lparr>pair = pair_ba,
                             calc_rate = dec_mul (dec_sub 1 f) (buy_price t),
                             order_rate = buy_price t, side = SELL\<rparr>)
              | None \<Rightarrow> Inr None))"

section \<open>The arbitrage indicator\<close>

type_synonym opportunity = "PairAndRate \<times> PairAndRate \<times> PairAndRate \<times> rat"

record Indicator =
  quote_curr :: string
  fees :: Fees
  order_type :: OrderType
  gain_min_limit :: rat
  has_signal_handler :: bool
  arb_opps :: "string \<rightharpoonup> opportunity"
  trading_currencies :: "string list"
  arb_calculator :: ArbCalculator

text \<open>The constructor: the cache starts empty, the calculator follows the order type.\<close>

definition init_indicator ::
  "string \<Rightarrow> string list \<Rightarrow> Fees \<Rightarrow> OrderType \<Rightarrow> rat \<Rightarrow> Indicator" where
  "init_indicator q currencies fs ot gmin =
     \<lparr>quote_curr = q, fees = fs, order_type = ot, gain_min_limit = gmin,
      has_signal_handler = False, arb_opps = Map.empty, trading_currencies = currencies,
      arb_calculator =
        (if ot = MARKET then MarketOrderArbCalculator (maker fs) Map.empty
         else LimitOrderArbCalculator (taker fs) (1 / 2000) Map.empty)\<rparr>"

definition register_signal_handler :: "Indicator \<Rightarrow> Indicator" where
  "register_signal_handler ind = ind\<lparr>has_signal_handler := True\<rparr>"

text \<open>
  The gain of one triangle, line 83 of the indicator:
  \<^verbatim>\<open>curr2_curr1.calc_rate * quote_curr2.calc_rate - 1 / curr1_quote.calc_rate\<close>.
\<close>

definition triangle_gain :: "PairAndRate \<Rightarrow> PairAndRate \<Rightarrow> PairAndRate \<Rightarrow> error + rat" where
  "triangle_gain leg1 leg2 leg3 =
     (let product = dec_mul (calc_rate leg2) (calc_rate leg3)
      in case dec_div 1 (calc_rate leg1) of
           Inl e \<Rightarrow> Inl e
         | Inr recip \<Rightarrow> Inr (dec_sub product recip))"

definition path_key :: "PairAndRate \<Rightarrow> PairAndRate \<Rightarrow> PairAndRate \<Rightarrow> string" where
  "path_key leg1 leg2 leg3 = pair leg1 @ ''>'' @ pair leg2 @ ''>'' @ pair leg3"

text \<open>
  The state the two loops of \<^verbatim>\<open>update\<close> carry: the cache, \<^verbatim>\<open>max_gain\<close> and
  \<^verbatim>\<open>max_path\<close>.
\<close>

type_synonym scan_state = "(string \<rightharpoonup> opportunity) \<times> rat \<times> string"

text \<open>Lines 85 to 93: what the loop body does with a triangle once its gain is known.\<close>

definition record_triangle ::
  "PairAndRate \<Rightarrow> PairAndRate \<Rightarrow> PairAndRate \<Rightarrow> rat \<Rightarrow> scan_state \<Rightarrow> scan_state" where
  "record_triangle leg1 leg2 leg3 gain st =
     (case st of (opps, max_gain, max_path) \<Rightarrow>
        if 0 < gain then
          (let path = path_key leg1 leg2 leg3;
               opps' = opps(path \<mapsto> (leg1, leg2, leg3, gain))
           in if max_gain < gain then (opps', gain, path) else (opps', max_gain, max_path))
        else (opps, max_gain, max_path))"

text \<open>
  The inner loop over \<^verbatim>\<open>curr2\<close>. An exception leaves the loop with the cache as it was
  mutated so far: the result is the raised error, if any, and the state reached.
\<close>

fun scan_curr2 ::
  "ArbCalculator \<Rightarrow> string \<Rightarrow> string \<Rightarrow> PairAndRate \<Rightarrow> string list \<Rightarrow> scan_state
     \<Rightarrow> error option \<times> scan_state" where
  "scan_curr2 calc q curr1 leg1 [] st = (None, st)"
| "scan_curr2 calc q curr1 leg1 (curr2 # rest) st =
     (if curr2 = q \<or> curr2 = curr1 then scan_curr2 calc q curr1 leg1 rest st
      else case get_pair_and_rate calc curr2 curr1 of
             Inl e \<Rightarrow> (Some e, st)
           | Inr None \<Rightarrow> scan_curr2 calc q curr1 leg1 rest st
           | Inr (Some leg2) \<Rightarrow>
               (case get_pair_and_rate calc q curr2 of
                  Inl e \<Rightarrow> (Some e, st)
                | Inr None \<Rightarrow> scan_curr2 calc q curr1 leg1 rest st
                | Inr (Some leg3) \<Rightarrow>
                    (case triangle_gain leg1 leg2 leg3 of
                       Inl e \<Rightarrow> (Some e, st)
                     | Inr gain \<Rightarrow>
                         scan_curr2 calc q curr1 leg1 rest
                           (record_triangle leg1 leg2 leg3 gain st))))"

text \<open>The outer loop over \<^verbatim>\<open>curr1\<close>; \<open>all\<close> is the whole list, walked again for \<^verbatim>\<open>curr2\<close>.\<close>

fun scan_curr1 ::
  "ArbCalculator \<Rightarrow> string \<Rightarrow> string list \<Rightarrow> string list \<Rightarrow> scan_state
     \<Rightarrow> error option \<times> scan_state" where
  "scan_curr1 calc q all [] st = (None, st)"
| "scan_curr1 calc q all (curr1 # rest) st =
     (if curr1 = q then scan_curr1 calc q all rest st
      else case get_pair_and_rate calc curr1 q of
             Inl e \<Rightarrow> (Some e, st)
           | Inr None \<Rightarrow> scan_curr1 calc q all rest st
           | Inr (Some leg1) \<Rightarrow>
               (case scan_curr2 calc q curr1 leg1 all st of
                  (Some e, st') \<Rightarrow> (Some e, st')
                | (None, st') \<Rightarrow> scan_curr1 calc q all rest st'))"

text \<open>
  A signal is what \<^verbatim>\<open>_signal_arbitrage\<close> hands to the registered handler: the three legs,
  the gain, the order type and the quote currency.
\<close>

type_synonym signal = "PairAndRate \<times> PairAndRate \<times> PairAndRate \<times> rat \<times> OrderType \<times> string"

text \<open>
  \<^verbatim>\<open>update\<close>: the indicator after the call (the cache is mutated in place, also when an
  exception ends the call), and either the error raised or the signal sent, if any.
\<close>

definition update :: "Indicator \<Rightarrow> (string \<rightharpoonup> Ticker) \<Rightarrow> Indicator \<times> (error + signal option)" where
  "update ind tk =
     (let calc = set_tickers (arb_calculator ind) tk;
          ind1 = ind\<lparr>arb_calculator := calc\<rparr>
      in case scan_curr1 calc (quote_curr ind) (trading_currencies ind) (trading_currencies ind)
                (arb_opps ind, 0, []) of
           (Some e, (opps, max_gain, max_path)) \<Rightarrow> (ind1\<lparr>arb_opps := opps\<rparr>, Inl e)
         | (None, (opps, max_gain, max_path)) \<Rightarrow>
             (let ind2 = ind1\<lparr>arb_opps := opps\<rparr>
              in if 0 < max_gain then
                   (case opps max_path of
                      None \<Rightarrow> (ind2, Inl (KeyError max_path))
                    | Some (l1, l2, l3, g) \<Rightarrow>
                        if has_signal_handler ind2
                        then (ind2, Inr (Some (l1, l2, l3, g, order_type ind2, quote_curr ind2)))
                        else (ind2, Inr None))
                 else (ind2, Inr None)))"

text \<open>A sequence of polls: the indicator after \<^verbatim>\<open>update\<close> was called with each snapshot in turn.\<close>

fun run_updates :: "Indicator \<Rightarrow> (string \<rightharpoonup> Ticker) list \<Rightarrow> Indicator" where
  "run_updates ind [] = ind"
| "run_updates ind (tk # tks) = run_updates (fst (update ind tk)) tks"

definition gain_of :: "opportunity \<Rightarrow> rat" where
  "gain_of opp = (case opp of (l1, l2, l3, g) \<Rightarrow> g)"

text \<open>The invariant of the cache: every entry has a strictly positive gain.\<close>

definition positive_gains :: "(string \<rightharpoonup> opportunity) \<Rightarrow> bool" where
  "positive_gains opps \<longleftrightarrow> (\<forall>p opp. opps p = Some opp \<longrightarrow> 0 < gain_of opp)"

section \<open>The slippage estimate of the strategy\<close>

text \<open>
  One level of an order-book ladder is \<^verbatim>\<open>[price, quantity, amount]\<close>; the book of a pair has
  the two ladders \<^verbatim>\<open>ask\<close> and \<^verbatim>\<open>bid\<close>. The entries are taken as decimals already:
  \<^verbatim>\<open>Decimal(ask[0])\<close> converts without rounding.
\<close>

type_synonym level = "rat \<times> rat \<times> rat"

record OrderBook =
  ask :: "level list"
  bid :: "level list"

definition DEPTH :: nat where
  "DEPTH = 40"

text \<open>
  The running totals of \<^verbatim>\<open>_get_weighted_rate\<close>: \<^verbatim>\<open>quantity_total\<close>, \<^verbatim>\<open>amount_total\<close> and
  \<^verbatim>\<open>last_rate\<close>.
\<close>

type_synonym totals = "rat \<times> rat \<times> rat"

text \<open>The loop over the asks (lines 198 to 204): it stops once the amount is reached.\<close>

fun walk_asks :: "rat \<Rightarrow> level list \<Rightarrow> totals \<Rightarrow> totals" where
  "walk_asks amount_to_sell [] st = st"
| "walk_asks amount_to_sell (lv # rest) st =
     (case (lv, st) of ((p, q, a), (quantity_total, amount_total, last_rate)) \<Rightarrow>
        (let quantity_total' = dec_add quantity_total q;
             amount_total' = dec_add amount_total a
         in if amount_to_sell \<le> amount_total' then (quantity_total', amount_total', p)
            else walk_asks amount_to_sell rest (quantity_total', amount_total', p)))"

text \<open>The loop over the bids (lines 219 to 225): it stops once the quantity is reached.\<close>

fun walk_bids :: "rat \<Rightarrow> level list \<Rightarrow> totals \<Rightarrow> totals" where
  "walk_bids amount_to_sell [] st = st"
| "walk_bids amount_to_sell (lv # rest) st =
     (case (lv, st) of ((p, q, a), (quantity_total, amount_total, last_rate)) \<Rightarrow>
        (let quantity_total' = dec_add quantity_total q;
             amount_total' = dec_add amount_total a
         in if amount_to_sell \<le> quantity_total' then (quantity_total', amount_total', p)
            else walk_bids amount_to_sell rest (quantity_total', amount_total', p)))"

text \<open>
  The totals after the depth check and the adjustment to \<^verbatim>\<open>amount_to_sell\<close> (lines 196 to
  235): the pair \<^verbatim>\<open>(quantity_total, amount_total)\<close> the rate is computed from.
\<close>

definition book_totals :: "rat \<Rightarrow> OrderBook \<Rightarrow> OrderSide \<Rightarrow> error + rat \<times> rat" where
  "book_totals amount_to_sell order_book sd =
     (if sd = BUY then
        (case walk_asks amount_to_sell (ask order_book) (0, 0, 0) of
           (quantity_total, amount_total, last_rate) \<Rightarrow>
             if amount_total < amount_to_sell then Inl (NotEnoughDepth DEPTH amount_to_sell)
             else if amount_to_sell < amount_total then
               (case dec_div (dec_sub amount_total amount_to_sell) last_rate of
                  Inl e \<Rightarrow> Inl e
                | Inr d \<Rightarrow> Inr (dec_sub quantity_total d, amount_to_sell))
             else Inr (quantity_total, amount_total))
      else
        (case walk_bids amount_to_sell (bid order_book) (0, 0, 0) of
           (quantity_total, amount_total, last_rate) \<Rightarrow>
             if quantity_total < amount_to_sell then Inl (NotEnoughDepth DEPTH amount_to_sell)
             else if amount_to_sell < quantity_total then
               Inr (amount_to_sell,
                    dec_sub amount_total (dec_mul (dec_sub quantity_total amount_to_sell) last_rate))
             else Inr (quantity_total, amount_total)))"

text \<open>\<^verbatim>\<open>_get_weighted_rate\<close>: the pair \<^verbatim>\<open>(weighted_rate, acquired_amount)\<close>, or the exception.\<close>

definition get_weighted_rate ::
  "Fees \<Rightarrow> rat \<Rightarrow> OrderBook \<Rightarrow> OrderSide \<Rightarrow> error + rat \<times> rat" where
  "get_weighted_rate fs amount_to_sell order_book sd =
     (case book_totals amount_to_sell order_book sd of
        Inl e \<Rightarrow> Inl e
      | Inr (quantity_total, amount_total) \<Rightarrow>
          (let f = dec_sub 1 (taker fs)
           in case (if sd = BUY then dec_div (dec_mul f quantity_total) amount_total
                    else dec_div (dec_mul f amount_total) quantity_total) of
                Inl e \<Rightarrow> Inl e
              | Inr weighted_rate \<Rightarrow>
                  Inr (weighted_rate, if sd = BUY then quantity_total else amount_total)))"

text \<open>The gain of line 186, from the three weighted rates.\<close>

definition slippage_gain :: "rat \<Rightarrow> rat \<Rightarrow> rat \<Rightarrow> error + rat" where
  "slippage_gain p1_weighted_rate p2_weighted_rate p3_weighted_rate =
     (let product = dec_mul p2_weighted_rate p3_weighted_rate
      in case dec_div 1 p1_weighted_rate of
           Inl e \<Rightarrow> Inl e
         | Inr recip \<Rightarrow> Inr (dec_sub product recip))"

text \<open>
  \<^verbatim>\<open>_recalc_gain_with_slippage\<close>: the books are what \<^verbatim>\<open>get_order_book\<close> returned, a
  dictionary from pair to book. The result is \<^verbatim>\<open>(gain, gain_amount)\<close>.
\<close>

definition recalc_gain_with_slippage ::
  "Fees \<Rightarrow> (string \<rightharpoonup> OrderBook) \<Rightarrow> PairAndRate \<Rightarrow> PairAndRate \<Rightarrow> PairAndRate \<Rightarrow> rat
     \<Rightarrow> error + rat \<times> rat" where
  "recalc_gain_with_slippage fs order_book pair1 pair2 pair3 trading_amount =
     (case order_book (pair pair1) of
        None \<Rightarrow> Inl (KeyError (pair pair1))
      | Some p1_order_book \<Rightarrow>
     (case order_book (pair pair2) of
        None \<Rightarrow> Inl (KeyError (pair pair2))
      | Some p2_order_book \<Rightarrow>
     (case order_book (pair pair3) of
        None \<Rightarrow> Inl (KeyError (pair pair3))
      | Some p3_order_book \<Rightarrow>
     (case get_weighted_rate fs trading_amount p1_order_book (side pair1) of
        Inl e \<Rightarrow> Inl e
      | Inr (p1_weighted_rate, acquired1) \<Rightarrow>
     (case get_weighted_rate fs acquired1 p2_order_book (side pair2) of
        Inl e \<Rightarrow> Inl e
      | Inr (p2_weighted_rate, acquired2) \<Rightarrow>
     (case get_weighted_rate fs acquired2 p3_order_book (side pair3) of
        Inl e \<Rightarrow> Inl e
      | Inr (p3_weighted_rate, acquired3) \<Rightarrow>
     (case slippage_gain p1_weighted_rate p2_weighted_rate p3_weighted_rate of
        Inl e \<Rightarrow> Inl e
      | Inr gain \<Rightarrow> Inr (gain, dec_sub acquired3 trading_amount))))))))"

text \<open>The sum of a ladder's column as the decimal context computes it, level by level.\<close>

fun dec_sum :: "rat list \<Rightarrow> rat \<Rightarrow> rat" where
  "dec_sum [] acc = acc"
| "dec_sum (x # xs) acc = dec_sum xs (dec_add acc x)"

definition level_quantity :: "level \<Rightarrow> rat" where
  "level_quantity lv = (case lv of (p, q, a) \<Rightarrow> q)"

definition level_amount :: "level \<Rightarrow> rat" where
  "level_amount lv = (case lv of (p, q, a) \<Rightarrow> a)"

section \<open>The trader\<close>

text \<open>
  The exchange is the trader's environment. The model keeps what the trader can observe of
  it: the fees, the answers of \<^verbatim>\<open>get_user_open_orders\<close> and \<^verbatim>\<open>get_order_trades\<close> at the
  moment of the call, the answer to the next order submission, the log of the orders
  submitted so far (pair, quantity, price and type of each \<^verbatim>\<open>place_order\<close>), and the log
  of the queries made so far. A call of the API may raise.
\<close>

datatype ApiQuery = OpenOrdersQuery | OrderTradesQuery int

record OrderTrades =
  in_currency :: string
  in_amount :: rat

record Exchange =
  exchange_fees :: Fees
  placed :: "(string \<times> rat \<times> rat \<times> string) list"
  order_create :: "nat \<Rightarrow> error + int"
  user_open_orders :: "error + (string \<times> int list) list"
  order_trades :: "int \<Rightarrow> error + OrderTrades option"
  queries :: "ApiQuery list"

text \<open>The two queries of the trader: each call is logged, and returns the exchange's answer.\<close>

definition get_user_open_orders ::
  "Exchange \<Rightarrow> (error + (string \<times> int list) list) \<times> Exchange" where
  "get_user_open_orders ex =
     (user_open_orders ex, ex\<lparr>queries := queries ex @ [OpenOrdersQuery]\<rparr>)"

definition get_order_trades :: "Exchange \<Rightarrow> int \<Rightarrow> (error + OrderTrades option) \<times> Exchange" where
  "get_order_trades ex exch_id =
     (order_trades ex exch_id, ex\<lparr>queries := queries ex @ [OrderTradesQuery exch_id]\<rparr>)"

definition place_order ::
  "Exchange \<Rightarrow> string \<Rightarrow> rat \<Rightarrow> rat \<Rightarrow> string \<Rightarrow> (error + int) \<times> Exchange" where
  "place_order ex pr qty prc ord_type =
     (order_create ex (length (placed ex)),
      ex\<lparr>placed := placed ex @ [(pr, qty, prc, ord_type)]\<rparr>)"

record Trader =
  paper_trading :: bool
  trader_order_type :: OrderType
  initial_amount :: rat
  order_update_handler :: "(Order \<Rightarrow> Order) option"
  pairs_iter :: "PairAndRate list"
  triarb_opp_id :: int
  current_pair :: "PairAndRate option"
  cur_pair_idx :: nat
  current_order :: "Order option"
  current_acquired_curr :: string
  current_acquired_amount :: rat

definition init_trader :: "bool \<Rightarrow> OrderType \<Rightarrow> Trader" where
  "init_trader paper ot =
     \<lparr>paper_trading = paper, trader_order_type = ot, initial_amount = 0,
      order_update_handler = None, pairs_iter = [], triarb_opp_id = 0, current_pair = None,
      cur_pair_idx = 0, current_order = None, current_acquired_curr = [],
      current_acquired_amount = 0\<rparr>"

definition is_loop_in_progress :: "Trader \<Rightarrow> bool" where
  "is_loop_in_progress t \<longleftrightarrow> current_order t \<noteq> None"

definition handle_order_update :: "Trader \<Rightarrow> Trader" where
  "handle_order_update t =
     (case order_update_handler t of
        None \<Rightarrow> t
      | Some h \<Rightarrow> t\<lparr>current_order := map_option h (current_order t)\<rparr>)"

text \<open>
  A method of the trader returns the exception it raised, if any, together with the trader
  and the exchange as the call left them: the fields assigned before a raise stay assigned.
\<close>

type_synonym outcome = "error option \<times> Trader \<times> Exchange"

text \<open>\<^verbatim>\<open>_place_order\<close>; \<open>now\<close> is the creation time taken from the clock.\<close>

definition trader_place_order :: "Trader \<Rightarrow> Exchange \<Rightarrow> PairAndRate \<Rightarrow> int \<Rightarrow> int \<Rightarrow> outcome" where
  "trader_place_order t ex pr opp_id now =
     (if paper_trading t then (None, t, ex)
      else
        (case (if trader_order_type t = LIMIT \<and> side pr = BUY
               then dec_div (current_acquired_amount t) (order_rate pr)
               else Inr (current_acquired_amount t)) of
           Inl e \<Rightarrow> (Some e, t, ex)
         | Inr qty \<Rightarrow>
             (let t1 = handle_order_update
                         (t\<lparr>current_order :=
                              Some \<lparr>order_id = - 1, exch_order_id = - 1,
                                    triarb_opportunity_id = opp_id, created = now,
                                    order_pair = pair pr, quantity = qty, price = order_rate pr,
                                    order_side = side pr, order_type_of = trader_order_type t,
                                    status = PLACING\<rparr>\<rparr>);
                  (res, ex1) =
                    (if trader_order_type t = LIMIT then
                       (if side pr = BUY then place_order ex (pair pr) qty (order_rate pr) ''buy''
                        else place_order ex (pair pr) qty (order_rate pr) ''sell'')
                     else
                       (if side pr = BUY then place_order ex (pair pr) qty 0 ''market_buy_total''
                        else place_order ex (pair pr) qty 0 ''market_sell''))
              in case res of
                   Inl e \<Rightarrow> (Some e, t1, ex1)
                 | Inr exch_id \<Rightarrow>
                     (None,
                      handle_order_update
                        (t1\<lparr>current_order :=
                              map_option (\<lambda>ord. ord\<lparr>exch_order_id := exch_id, status := OPEN\<rparr>)
                                (current_order t1)\<rparr>),
                      ex1))))"

text \<open>\<^verbatim>\<open>start_arb_loop\<close>.\<close>

definition start_arb_loop ::
  "Trader \<Rightarrow> Exchange \<Rightarrow> PairAndRate \<Rightarrow> PairAndRate \<Rightarrow> PairAndRate \<Rightarrow> int \<Rightarrow> rat \<Rightarrow> int \<Rightarrow> outcome" where
  "start_arb_loop t ex pair1 pair2 pair3 opp_id trading_amount now =
     (if paper_trading t \<or> current_order t \<noteq> None then (None, t, ex)
      else
        (let t1 = t\<lparr>initial_amount := trading_amount,
                    current_acquired_amount := trading_amount,
                    pairs_iter := [pair2, pair3],
                    triarb_opp_id := opp_id,
                    current_pair := Some pair1,
                    cur_pair_idx := cur_pair_idx t + 1\<rparr>
         in trader_place_order t1 ex pair1 opp_id now))"

text \<open>
  Lines 190 to 194: whether the order id is among the open orders of the current pair. An
  empty answer is falsy, and then \<^verbatim>\<open>self.current_pair\<close> is not read.
\<close>

definition remains_open ::
  "(string \<times> int list) list \<Rightarrow> PairAndRate option \<Rightarrow> int \<Rightarrow> error + bool" where
  "remains_open open_orders cp exch_id =
     (if open_orders = [] then Inr False
      else case cp of
             None \<Rightarrow> Inl AttributeError
           | Some p \<Rightarrow>
               (case map_of open_orders (pair p) of
                  None \<Rightarrow> Inr False
                | Some ids \<Rightarrow> Inr (exch_id \<in> set ids)))"

text \<open>
  \<^verbatim>\<open>_update_current_order_status\<close>. The exception of line 214 is \<open>NoTradesFound\<close>, with
  the exchange order id it carries.
\<close>

definition update_current_order_status :: "Trader \<Rightarrow> Exchange \<Rightarrow> outcome" where
  "update_current_order_status t ex =
     (case current_order t of
        None \<Rightarrow> (None, t\<lparr>current_order := None\<rparr>, ex)
      | Some ord \<Rightarrow>
          if exch_order_id ord = - 1 then (None, t\<lparr>current_order := None\<rparr>, ex)
          else
            (let (answer, ex1) = get_user_open_orders ex
             in case answer of
                  Inl e \<Rightarrow> (Some e, t, ex1)
                | Inr open_orders \<Rightarrow>
                    (case remains_open open_orders (current_pair t) (exch_order_id ord) of
                       Inl e \<Rightarrow> (Some e, t, ex1)
                     | Inr True \<Rightarrow> (None, t, ex1)
                     | Inr False \<Rightarrow>
                         (let (trades, ex2) = get_order_trades ex1 (exch_order_id ord)
                          in case trades of
                               Inl e \<Rightarrow> (Some e, t, ex2)
                             | Inr None \<Rightarrow> (Some (NoTradesFound (exch_order_id ord)), t, ex2)
                             | Inr (Some tr) \<Rightarrow>
                                 (None,
                                  handle_order_update
                                    (t\<lparr>current_acquired_curr := in_currency tr,
                                       current_acquired_amount :=
                                         dec_mul (in_amount tr)
                                           (dec_sub 1 (taker (exchange_fees ex2))),
                                       current_order := Some (ord\<lparr>status := COMPLETED\<rparr>)\<rparr>),
                                  ex2)))))"

text \<open>\<^verbatim>\<open>update\<close> of the trader, one poll tick.\<close>

definition trader_update :: "Trader \<Rightarrow> Exchange \<Rightarrow> int \<Rightarrow> outcome" where
  "trader_update t ex now =
     (if paper_trading t then (None, t, ex)
      else
        (case update_current_order_status t ex of
           (Some e, t1, ex1) \<Rightarrow> (Some e, t1, ex1)
         | (None, t1, ex1) \<Rightarrow>
             (case current_order t1 of
                None \<Rightarrow> (None, t1, ex1)
              | Some ord \<Rightarrow>
                  if status ord = COMPLETED then
                    (case pairs_iter t1 of
                       [] \<Rightarrow> (None, t1\<lparr>current_order := None, cur_pair_idx := 0\<rparr>, ex1)
                     | p # rest \<Rightarrow>
                         trader_place_order
                           (t1\<lparr>current_pair := Some p, pairs_iter := rest,
                               cur_pair_idx := cur_pair_idx t1 + 1\<rparr>)
                           ex1 p (triarb_opp_id t1) now)
                  else (None, t1, ex1))))"

section \<open>Example data\<close>

text \<open>
  The fee schedule of the exchange class, and the ticker snapshot of the end-to-end scenario:
  \<^verbatim>\<open>BTC_USD{buy=10000, sell=10010}\<close>, \<^verbatim>\<open>ETH_BTC{buy=0.05, sell=0.0501}\<close>,
  \<^verbatim>\<open>ETH_USD{buy=505, sell=506}\<close>, with the quote currency USD and market orders.
\<close>

definition exmo_fees :: Fees where
  "exmo_fees = \<lparr>maker = 1 / 500, taker = 1 / 500\<rparr>"

definition quote_of :: "rat \<Rightarrow> rat \<Rightarrow> Ticker" where
  "quote_of b s =
     \<lparr>high = s, low = b, avg = b, vol = 0, vol_curr = 0, last_trade = b,
      buy_price = b, sell_price = s, updated = 0\<rparr>"

definition spec_tickers :: "string \<rightharpoonup> Ticker" where
  "spec_tickers =
     [''BTC_USD'' \<mapsto> quote_of 10000 10010,
      ''ETH_BTC'' \<mapsto> quote_of (1 / 20) (501 / 10000),
      ''ETH_USD'' \<mapsto> quote_of 505 506]"

definition usd_indicator :: Indicator where
  "usd_indicator = init_indicator ''USD'' [''USD'', ''BTC'', ''ETH''] exmo_fees MARKET 1"

text \<open>The legs of the triangle USD, BTC, ETH, USD and its gain, about 9.50.\<close>

definition leg_btc_usd_buy :: PairAndRate where
  "leg_btc_usd_buy =
     \<lparr>pair = ''BTC_USD'', calc_rate = 997002997002997002997002997 / 10000000000000000000000000000000, order_rate = 10010, side = BUY\<rparr>"

definition leg_eth_btc_buy :: PairAndRate where
  "leg_eth_btc_buy =
     \<lparr>pair = ''ETH_BTC'', calc_rate = 498003992015968063872255489 / 25000000000000000000000000, order_rate = 501 / 10000, side = BUY\<rparr>"

definition leg_eth_usd_sell :: PairAndRate where
  "leg_eth_usd_sell =
     \<lparr>pair = ''ETH_USD'', calc_rate = 50399 / 100, order_rate = 505, side = SELL\<rparr>"

definition gain_btc_eth :: rat where
  "gain_btc_eth = 475057860231440925763703 / 50000000000000000000000"

text \<open>The legs of the triangle USD, ETH, BTC, USD and its gain, about -9.01.\<close>

definition leg_eth_usd_buy :: PairAndRate where
  "leg_eth_usd_buy =
     \<lparr>pair = ''ETH_USD'', calc_rate = 1972332015810276679841897233 / 1000000000000000000000000000000, order_rate = 506, side = BUY\<rparr>"

definition leg_eth_btc_sell :: PairAndRate where
  "leg_eth_btc_sell =
     \<lparr>pair = ''ETH_BTC'', calc_rate = 499 / 10000, order_rate = 1 / 20, side = SELL\<rparr>"

definition leg_btc_usd_sell :: PairAndRate where
  "leg_btc_usd_sell =
     \<lparr>pair = ''BTC_USD'', calc_rate = 9980, order_rate = 10000, side = SELL\<rparr>"

definition gain_eth_btc :: rat where
  "gain_eth_btc = (- (22530070140280561122244489 / 2500000000000000000000000))"

text \<open>
  A trader in live mode before and after it started the loop of the first triangle with a
  trading amount of 5 USD, an exchange that accepts every order, and a trader in paper mode.
\<close>

definition idle_trader :: Trader where
  "idle_trader = init_trader False MARKET"

definition paper_trader :: Trader where
  "paper_trader = init_trader True MARKET"

definition quiet_exchange :: Exchange where
  "quiet_exchange =
     \<lparr>exchange_fees = exmo_fees, placed = [],
      order_create = (\<lambda>n. Inr (100 + int n)),
      user_open_orders = Inr [],
      order_trades = (\<lambda>i. Inr None),
      queries = []\<rparr>"

definition busy_exchange :: Exchange where
  "busy_exchange = quiet_exchange\<lparr>placed := [(''BTC_USD'', 5, 0, ''market_buy_total'')]\<rparr>"


definition busy_trader :: Trader where
  "busy_trader =
     \<lparr>paper_trading = False, trader_order_type = MARKET, initial_amount = 5,
      order_update_handler = None, pairs_iter = [leg_eth_btc_buy, leg_eth_usd_sell],
      triarb_opp_id = 7, current_pair = Some leg_btc_usd_buy, cur_pair_idx = 1,
      current_order =
        Some \<lparr>order_id = - 1, exch_order_id = 100, triarb_opportunity_id = 7, created = 0,
              order_pair = ''BTC_USD'', quantity = 5, price = 10010, order_side = BUY,
              order_type_of = MARKET, status = OPEN\<rparr>,
      current_acquired_curr = [], current_acquired_amount = 5\<rparr>"

text \<open>Whether a result is the exception of lines 209 and 230, the depth failure.\<close>

definition is_not_enough_depth :: "error + 'a \<Rightarrow> bool" where
  "is_not_enough_depth res =
     (case res of Inl (NotEnoughDepth d a) \<Rightarrow> True | _ \<Rightarrow> False)"

text \<open>The book of the slippage example, asks \<^verbatim>\<open>[[10,5,50],[11,6,66]]\<close>, and two bids.\<close>

definition example_book :: OrderBook where
  "example_book = \<lparr>ask = [(10, 5, 50), (11, 6, 66)], bid = [(10, 5, 50), (9, 6, 54)]\<rparr>"

text \<open>
  The relative error of one rounding to 28 significant digits is at most
  \<open>unit_roundoff\<close>, half a unit of the last digit; \<open>tolerance\<close> bounds the error of up to
  three roundings in a row.
\<close>

definition unit_roundoff :: rat where
  "unit_roundoff = 1 / (2 * 10 ^ 27)"

definition tolerance :: rat where
  "tolerance = 1 / 10 ^ 26"

text \<open>
  A ladder is exhausted before the target is reached when the running total of the column
  stays below the target through all its levels (for an empty ladder, when the start value
  is below the target).
\<close>

fun exhausted_before_target :: "rat \<Rightarrow> rat list \<Rightarrow> rat \<Rightarrow> bool" where
  "exhausted_before_target target [] acc = (acc < target)"
| "exhausted_before_target target (x # xs) acc =
     (dec_add acc x < target \<and> exhausted_before_target target xs (dec_add acc x))"

text \<open>
  An entry of the cache is consistent when its gain is what line 83 computes from its three
  legs.
\<close>

definition gain_consistent :: "opportunity \<Rightarrow> bool" where
  "gain_consistent opp = (case opp of (l1, l2, l3, g) \<Rightarrow> triangle_gain l1 l2 l3 = Inr g)"

definition consistent_gains :: "(string \<rightharpoonup> opportunity) \<Rightarrow> bool" where
  "consistent_gains opps \<longleftrightarrow> (\<forall>p opp. opps p = Some opp \<longrightarrow> gain_consistent opp)"

text \<open>
  Order books for the three pairs of the triangle USD, BTC, ETH, USD, as
  \<^verbatim>\<open>get_order_book\<close> returns them: two ask levels of \<^verbatim>\<open>BTC_USD\<close>, one ask level of
  \<^verbatim>\<open>ETH_BTC\<close> and one bid level of \<^verbatim>\<open>ETH_USD\<close>.
\<close>

definition example_books :: "string \<rightharpoonup> OrderBook" where
  "example_books =
     [''BTC_USD'' \<mapsto> \<lparr>ask = [(10010, 1 / 200, 1001 / 20), (10020, 1 / 2, 5010)], bid = []\<rparr>,
      ''ETH_BTC'' \<mapsto> \<lparr>ask = [(501 / 10000, 20, 501 / 500)], bid = []\<rparr>,
      ''ETH_USD'' \<mapsto> \<lparr>ask = [], bid = [(505, 30, 15150)]\<rparr>]"

text \<open>
  A currency code contains neither the separator of a pair name nor the separator of a
  path key, so that a path key can be read back into its three pairs and a pair name into
  its two currencies.
\<close>

definition currency_code :: "string \<Rightarrow> bool" where
  "currency_code c \<longleftrightarrow> CHR ''_'' \<notin> set c \<and> CHR ''>'' \<notin> set c"

text \<open>
  The indicator of the scenario with two entries left in its cache by earlier polls, one
  under the path key of each of the two triangles.
\<close>

definition stale_indicator :: Indicator where
  "stale_indicator =
     usd_indicator\<lparr>arb_opps :=
       [''BTC_USD>ETH_BTC>ETH_USD'' \<mapsto> (leg_btc_usd_buy, leg_eth_btc_buy, leg_eth_usd_sell, 1),
        ''ETH_USD>ETH_BTC>BTC_USD'' \<mapsto> (leg_eth_usd_buy, leg_eth_btc_sell, leg_btc_usd_sell, 2)]\<rparr>"

section \<open>Rounding to the context precision\<close>

lemma pow10_powi: "pow10 e = 10 powi e"
  by (simp add: pow10_def power_int_def inverse_eq_divide power_one_over)

lemma pow10_pos: "0 < pow10 e"
  by (simp add: pow10_powi)

lemma pow10_add: "pow10 (a + b) = pow10 a * pow10 b"
  by (simp add: pow10_powi power_int_add)

lemma pow10_mono: "a \<le> b \<Longrightarrow> pow10 a \<le> pow10 b"
  by (simp add: pow10_powi power_int_increasing)

lemma pow10_strict_mono: "a < b \<Longrightarrow> pow10 a < pow10 b"
  by (simp add: pow10_powi power_int_strict_increasing)

lemma pow10_nat: "pow10 (int n) = 10 ^ n"
  by (simp add: pow10_powi)

lemma adjusted_bounds:
  assumes "0 < a"
  shows "pow10 (adjusted a) \<le> a" and "a < pow10 (adjusted a + 1)"
proof -
  obtain p q where pq: "quotient_of a = (p, q)"
    by (cases "quotient_of a")
  have q: "0 < q" using pq by (rule quotient_of_denom_pos)
  have a: "a = of_int p / of_int q" using pq by (rule quotient_of_div)
  have p: "0 < p" using assms q a by (simp add: zero_less_divide_iff)
  define dp where "dp = floorlog 10 (nat p)"
  define dq where "dq = floorlog 10 (nat q)"
  have bp: "10 ^ (dp - 1) \<le> nat p" "nat p < 10 ^ dp"
    using floorlog_bounds [of "nat p" 10] p by (simp_all add: dp_def)
  have bq: "10 ^ (dq - 1) \<le> nat q" "nat q < 10 ^ dq"
    using floorlog_bounds [of "nat q" 10] q by (simp_all add: dq_def)
  have dp1: "1 \<le> dp" using p by (simp add: dp_def floorlog_def)
  have dq1: "1 \<le> dq" using q by (simp add: dq_def floorlog_def)
  have rp: "(10::rat) ^ (dp - 1) \<le> of_int p" "of_int p < (10::rat) ^ dp"
  proof -
    have "of_nat (10 ^ (dp - 1)) \<le> (of_nat (nat p) :: rat)" using bp(1) of_nat_le_iff by blast
    then show "(10::rat) ^ (dp - 1) \<le> of_int p" using p by simp
    have "(of_nat (nat p) :: rat) < of_nat (10 ^ dp)" using bp(2) of_nat_less_iff by blast
    then show "of_int p < (10::rat) ^ dp" using p by simp
  qed
  have rq: "(10::rat) ^ (dq - 1) \<le> of_int q" "of_int q < (10::rat) ^ dq"
  proof -
    have "of_nat (10 ^ (dq - 1)) \<le> (of_nat (nat q) :: rat)" using bq(1) of_nat_le_iff by blast
    then show "(10::rat) ^ (dq - 1) \<le> of_int q" using q by simp
    have "(of_nat (nat q) :: rat) < of_nat (10 ^ dq)" using bq(2) of_nat_less_iff by blast
    then show "of_int q < (10::rat) ^ dq" using q by simp
  qed
  define d where "d = int dp - int dq"
  have adj: "adjusted a = (if pow10 d \<le> a then d else d - 1)"
    by (simp add: adjusted_def pq d_def dp_def dq_def Let_def)
  have qpos: "(0::rat) < of_int q" using q by simp
  have upper: "a < pow10 (d + 1)"
  proof -
    have "pow10 (d + 1) = 10 ^ dp / 10 ^ (dq - 1)"
    proof -
      have "d + 1 = int dp - int (dq - 1)" using dq1 by (simp add: d_def)
      then show ?thesis by (simp add: pow10_powi power_int_diff)
    qed
    moreover have "of_int p / of_int q < (10::rat) ^ dp / 10 ^ (dq - 1)"
    proof -
      have "of_int p / of_int q < (10::rat) ^ dp / of_int q"
        using rp(2) qpos by (simp add: divide_strict_right_mono)
      also have "\<dots> \<le> 10 ^ dp / 10 ^ (dq - 1)"
        using rq(1) by (simp add: frac_le)
      finally show ?thesis .
    qed
    ultimately show ?thesis using a by simp
  qed
  have lower: "pow10 (d - 1) \<le> a"
  proof -
    have "pow10 (d - 1) = 10 ^ (dp - 1) / 10 ^ dq"
    proof -
      have "d - 1 = int (dp - 1) - int dq" using dp1 by (simp add: d_def)
      then show ?thesis by (simp add: pow10_powi power_int_diff)
    qed
    moreover have "(10::rat) ^ (dp - 1) / 10 ^ dq \<le> of_int p / of_int q"
    proof -
      have "(10::rat) ^ (dp - 1) / 10 ^ dq \<le> of_int p / 10 ^ dq"
        using rp(1) by (simp add: divide_right_mono)
      also have "\<dots> \<le> of_int p / of_int q"
        using rq(2) qpos p by (simp add: frac_le)
      finally show ?thesis .
    qed
    ultimately show ?thesis using a by simp
  qed
  show "pow10 (adjusted a) \<le> a" using adj lower by simp
  show "a < pow10 (adjusted a + 1)" using adj upper by (simp add: not_le)
qed

lemma pow10_less_cancel: "pow10 a < pow10 b \<Longrightarrow> a < b"
proof (rule ccontr)
  assume "pow10 a < pow10 b" and "\<not> a < b"
  then show False using pow10_mono [of b a] by simp
qed

lemma adjusted_unique:
  assumes "pow10 k \<le> a" and "a < pow10 (k + 1)"
  shows "adjusted a = k"
proof -
  have pos: "0 < a" using assms(1) pow10_pos [of k] by simp
  note b = adjusted_bounds [OF pos]
  have "pow10 k < pow10 (adjusted a + 1)" using assms(1) b(2) by simp
  then have 1: "k < adjusted a + 1" by (rule pow10_less_cancel)
  have "pow10 (adjusted a) < pow10 (k + 1)" using assms(2) b(1) by simp
  then have 2: "adjusted a < k + 1" by (rule pow10_less_cancel)
  from 1 2 show ?thesis by simp
qed

lemma round_half_even_of_int: "round_half_even (of_int n) = n"
  by (simp add: round_half_even_def)

lemma round_half_even_mono: "x \<le> y \<Longrightarrow> round_half_even x \<le> round_half_even y"
proof -
  assume xy: "x \<le> y"
  have fl: "\<lfloor>x\<rfloor> \<le> \<lfloor>y\<rfloor>" using xy by (rule floor_mono)
  show ?thesis
  proof (cases "\<lfloor>x\<rfloor> = \<lfloor>y\<rfloor>")
    case True
    then have "x - of_int \<lfloor>x\<rfloor> \<le> y - of_int \<lfloor>y\<rfloor>" using xy by simp
    with True show ?thesis by (auto simp: round_half_even_def Let_def)
  next
    case False
    with fl have "\<lfloor>x\<rfloor> + 1 \<le> \<lfloor>y\<rfloor>" by simp
    moreover have "round_half_even x \<le> \<lfloor>x\<rfloor> + 1" by (simp add: round_half_even_def Let_def)
    moreover have "\<lfloor>y\<rfloor> \<le> round_half_even y" by (simp add: round_half_even_def Let_def)
    ultimately show ?thesis by linarith
  qed
qed

lemma round_ctx_pos_eq:
  assumes "0 < x"
  shows "round_ctx x =
           of_int (round_half_even (x / pow10 (adjusted x - 27))) * pow10 (adjusted x - 27)"
  using assms by (simp add: round_ctx_def prec_def Let_def)

text \<open>The scaled value lies between 10^27 and 10^28.\<close>

lemma scaled_bounds:
  assumes "0 < x"
  shows "10 ^ 27 \<le> x / pow10 (adjusted x - 27)" and "x / pow10 (adjusted x - 27) < 10 ^ 28"
proof -
  note b = adjusted_bounds [OF assms]
  have e: "pow10 (adjusted x) = pow10 (adjusted x - 27) * 10 ^ 27"
    using pow10_add [of "adjusted x - 27" 27] pow10_nat [of 27] by simp
  have e1: "pow10 (adjusted x + 1) = pow10 (adjusted x - 27) * 10 ^ 28"
  proof -
    have "pow10 (adjusted x + 1) = pow10 ((adjusted x - 27) + 28)"
      by (rule arg_cong [where f = pow10]) simp
    also have "\<dots> = pow10 (adjusted x - 27) * pow10 28" by (rule pow10_add)
    finally show ?thesis using pow10_nat [of 28] by simp
  qed
  show "10 ^ 27 \<le> x / pow10 (adjusted x - 27)"
    using b(1) e pow10_pos [of "adjusted x - 27"] by (simp add: pos_le_divide_eq mult.commute)
  show "x / pow10 (adjusted x - 27) < 10 ^ 28"
    using b(2) e1 pow10_pos [of "adjusted x - 27"]
    by (simp add: pos_divide_less_eq mult.commute add.commute)
qed

lemma round_half_even_scaled:
  assumes "0 < x"
  shows "10 ^ 27 \<le> round_half_even (x / pow10 (adjusted x - 27))"
    and "round_half_even (x / pow10 (adjusted x - 27)) \<le> 10 ^ 28"
proof -
  note s = scaled_bounds [OF assms]
  have "round_half_even (of_int (10 ^ 27)) \<le> round_half_even (x / pow10 (adjusted x - 27))"
    by (rule round_half_even_mono) (use s(1) in simp)
  then show "10 ^ 27 \<le> round_half_even (x / pow10 (adjusted x - 27))"
    by (simp only: round_half_even_of_int)
  have "round_half_even (x / pow10 (adjusted x - 27)) \<le> round_half_even (of_int (10 ^ 28))"
    by (rule round_half_even_mono) (use s(2) in simp)
  then show "round_half_even (x / pow10 (adjusted x - 27)) \<le> 10 ^ 28"
    by (simp only: round_half_even_of_int)
qed

lemma round_half_even_eqI:
  "of_int n - 1 / 2 < x \<Longrightarrow> x < of_int n + 1 / 2 \<Longrightarrow> round_half_even x = n"
proof -
  assume l: "of_int n - 1 / 2 < x" and u: "x < of_int n + 1 / 2"
  show ?thesis
  proof (cases "of_int n \<le> x")
    case True
    then have "\<lfloor>x\<rfloor> = n" using u by (simp add: floor_unique)
    with u show ?thesis by (simp add: round_half_even_def Let_def)
  next
    case False
    then have f: "\<lfloor>x\<rfloor> = n - 1" using l by (simp add: floor_unique)
    have "1 / 2 < x - of_int (n - 1)" using l by simp
    with f show ?thesis by (simp add: round_half_even_def Let_def)
  qed
qed

lemma round_ctx_eqI:
  assumes "pow10 (e + 27) \<le> x" and "x < pow10 (e + 28)"
    and "of_int n - 1 / 2 < x / pow10 e" and "x / pow10 e < of_int n + 1 / 2"
  shows "round_ctx x = of_int n * pow10 e"
proof -
  have pos: "0 < x" using assms(1) pow10_pos [of "e + 27"] by simp
  have "adjusted x = e + 27"
    by (rule adjusted_unique) (use assms(1,2) in \<open>simp_all add: add.commute add.left_commute\<close>)
  then have e: "adjusted x - 27 = e" by simp
  show ?thesis
    using round_half_even_eqI [OF assms(3,4)] by (simp add: round_ctx_pos_eq [OF pos] e)
qed

lemma round_ctx_exact_pos:
  assumes "0 < m" and "m < 10 ^ 28"
  shows "round_ctx (of_int m * pow10 e) = of_int m * pow10 e"
proof -
  let ?x = "of_int m * pow10 e"
  have pos: "0 < ?x" using assms(1) pow10_pos [of e] by simp
  define k where "k = adjusted ?x"
  note b = adjusted_bounds [OF pos, folded k_def]
  have "?x < pow10 (e + 28)"
  proof -
    have "(of_int m :: rat) < 10 ^ 28" using assms(2) of_int_less_iff [of m "10 ^ 28", where ?'a = rat] by simp
    then have "?x < 10 ^ 28 * pow10 e" using pow10_pos [of e] by simp
    also have "\<dots> = pow10 (e + 28)" using pow10_add [of e 28] pow10_nat [of 28] by simp
    finally show ?thesis .
  qed
  with b(1) have "pow10 k < pow10 (e + 28)" by simp
  then have "k < e + 28" by (rule pow10_less_cancel)
  then have j: "0 \<le> e - (k - 27)" by simp
  define j where "j = nat (e - (k - 27))"
  have pj: "pow10 e = 10 ^ j * pow10 (k - 27)"
  proof -
    have "pow10 e = pow10 (int j + (k - 27))" using j by (simp add: j_def)
    also have "\<dots> = pow10 (int j) * pow10 (k - 27)" by (rule pow10_add)
    finally show ?thesis by (simp add: pow10_nat)
  qed
  have "?x / pow10 (k - 27) = of_int (m * 10 ^ j)"
    using pow10_pos [of "k - 27"] by (simp add: pj)
  then have rh: "round_half_even (?x / pow10 (k - 27)) = m * 10 ^ j"
    by (simp only: round_half_even_of_int)
  have "round_ctx ?x = of_int (round_half_even (?x / pow10 (k - 27))) * pow10 (k - 27)"
    unfolding k_def by (rule round_ctx_pos_eq [OF pos])
  also have "\<dots> = of_int (m * 10 ^ j) * pow10 (k - 27)" by (simp only: rh)
  also have "\<dots> = ?x" by (simp add: pj)
  finally show ?thesis .
qed

lemma round_ctx_minus: "round_ctx (- x) = - round_ctx x"
  by (simp add: round_ctx_def Let_def)

lemma round_ctx_zero: "round_ctx 0 = 0"
  by (simp add: round_ctx_def)

lemma round_ctx_exact:
  assumes "\<bar>m\<bar> < 10 ^ 28"
  shows "round_ctx (of_int m * pow10 e) = of_int m * pow10 e"
proof (cases "m = 0")
  case True
  then show ?thesis by (simp add: round_ctx_zero)
next
  case False
  show ?thesis
  proof (cases "0 < m")
    case True
    with assms show ?thesis by (simp add: round_ctx_exact_pos)
  next
    case neg: False
    with False assms have "0 < - m" "- m < 10 ^ 28" by simp_all
    then have "round_ctx (of_int (- m) * pow10 e) = of_int (- m) * pow10 e"
      by (rule round_ctx_exact_pos)
    then show ?thesis using round_ctx_minus [of "of_int m * pow10 e"] by simp
  qed
qed

lemma round_ctx_pos: "0 < x \<Longrightarrow> 0 < round_ctx x"
proof -
  assume pos: "0 < x"
  have "(0::int) < 10 ^ 27" by simp
  also have "\<dots> \<le> round_half_even (x / pow10 (adjusted x - 27))"
    by (rule round_half_even_scaled(1) [OF pos])
  finally show ?thesis
    using pow10_pos [of "adjusted x - 27"] by (simp add: round_ctx_pos_eq [OF pos])
qed

lemma round_ctx_idem_pos:
  assumes "0 < x"
  shows "round_ctx (round_ctx x) = round_ctx x"
proof -
  define n where "n = round_half_even (x / pow10 (adjusted x - 27))"
  define e where "e = adjusted x - 27"
  have r: "round_ctx x = of_int n * pow10 e"
    by (simp add: round_ctx_pos_eq [OF assms] n_def e_def)
  have n: "10 ^ 27 \<le> n" "n \<le> 10 ^ 28"
    using round_half_even_scaled [OF assms] by (simp_all add: n_def)
  show ?thesis
  proof (cases "n = 10 ^ 28")
    case True
    have "round_ctx x = of_int 1 * pow10 (e + 28)"
      using pow10_add [of e 28] pow10_nat [of 28] by (simp add: r True)
    moreover have "round_ctx (of_int 1 * pow10 (e + 28)) = of_int 1 * pow10 (e + 28)"
      by (rule round_ctx_exact_pos) simp_all
    ultimately show ?thesis by simp
  next
    case False
    with n have "0 < n" "n < 10 ^ 28" by simp_all
    then show ?thesis unfolding r by (rule round_ctx_exact_pos)
  qed
qed

lemma round_ctx_idem: "round_ctx (round_ctx x) = round_ctx x"
proof (cases "0 < x")
  case True
  then show ?thesis by (rule round_ctx_idem_pos)
next
  case False
  show ?thesis
  proof (cases "x = 0")
    case True
    then show ?thesis by (simp add: round_ctx_zero)
  next
    case nz: False
    with False have "0 < - x" by simp
    then have "round_ctx (round_ctx (- x)) = round_ctx (- x)" by (rule round_ctx_idem_pos)
    then show ?thesis by (simp add: round_ctx_minus)
  qed
qed

lemma round_ctx_mono_pos:
  assumes "0 < x" and "x \<le> y"
  shows "round_ctx x \<le> round_ctx y"
proof -
  have ypos: "0 < y" using assms by simp
  note bx = adjusted_bounds [OF assms(1)]
  note by' = adjusted_bounds [OF ypos]
  have "pow10 (adjusted x) < pow10 (adjusted y + 1)" using bx(1) by'(2) assms(2) by simp
  then have le: "adjusted x \<le> adjusted y" using pow10_less_cancel by fastforce
  show ?thesis
  proof (cases "adjusted x = adjusted y")
    case True
    have "x / pow10 (adjusted y - 27) \<le> y / pow10 (adjusted y - 27)"
      using assms(2) pow10_pos [of "adjusted y - 27"] by (simp add: divide_right_mono)
    then have "round_half_even (x / pow10 (adjusted y - 27))
                 \<le> round_half_even (y / pow10 (adjusted y - 27))"
      by (rule round_half_even_mono)
    then show ?thesis
      using pow10_pos [of "adjusted y - 27"]
      by (simp add: round_ctx_pos_eq [OF assms(1)] round_ctx_pos_eq [OF ypos] True)
  next
    case False
    with le have lt: "adjusted x + 1 \<le> adjusted y" by simp
    have "round_ctx x \<le> 10 ^ 28 * pow10 (adjusted x - 27)"
    proof -
      have "(of_int (round_half_even (x / pow10 (adjusted x - 27))) :: rat) \<le> of_int (10 ^ 28)"
        using round_half_even_scaled(2) [OF assms(1)] of_int_le_iff by blast
      then show ?thesis
        using pow10_pos [of "adjusted x - 27"] by (simp add: round_ctx_pos_eq [OF assms(1)])
    qed
    also have "\<dots> = pow10 (adjusted x + 1)"
      using pow10_add [of "adjusted x - 27" 28] pow10_nat [of 28] by (simp add: add.commute)
    also have "\<dots> \<le> pow10 (adjusted y)" using lt by (rule pow10_mono)
    also have "\<dots> = 10 ^ 27 * pow10 (adjusted y - 27)"
      using pow10_add [of "adjusted y - 27" 27] pow10_nat [of 27] by simp
    also have "\<dots> \<le> round_ctx y"
    proof -
      have "(of_int (10 ^ 27) :: rat) \<le> of_int (round_half_even (y / pow10 (adjusted y - 27)))"
        using round_half_even_scaled(1) [OF ypos] of_int_le_iff by blast
      then show ?thesis
        using pow10_pos [of "adjusted y - 27"] by (simp add: round_ctx_pos_eq [OF ypos])
    qed
    finally show ?thesis .
  qed
qed

lemma round_ctx_mono: "x \<le> y \<Longrightarrow> round_ctx x \<le> round_ctx y"
proof -
  assume xy: "x \<le> y"
  consider "0 < x" | "x = 0" | "x < 0" by linarith
  then show ?thesis
  proof cases
    case 1
    then show ?thesis using xy by (rule round_ctx_mono_pos)
  next
    case 2
    show ?thesis
    proof (cases "y = 0")
      case True
      with 2 show ?thesis by simp
    next
      case False
      with 2 xy have "0 < y" by simp
      then show ?thesis using round_ctx_pos [of y] 2 by (simp add: round_ctx_zero)
    qed
  next
    case 3
    then have nx: "round_ctx x < 0" using round_ctx_pos [of "- x"] by (simp add: round_ctx_minus)
    consider "0 < y" | "y = 0" | "y < 0" by linarith
    then show ?thesis
    proof cases
      case 1
      then show ?thesis using round_ctx_pos [of y] nx by simp
    next
      case 2
      then show ?thesis using nx by (simp add: round_ctx_zero)
    next
      case 3
      then have "round_ctx (- y) \<le> round_ctx (- x)" using xy by (intro round_ctx_mono_pos) simp_all
      then show ?thesis by (simp add: round_ctx_minus)
    qed
  qed
qed

section \<open>Roundings of the example data\<close>

text \<open>
  Each lemma gives one rounded result of the decimal context; the proofs check the
  exponent and the half-unit interval of the rounded coefficient.
\<close>

lemma rt_1: "round_ctx (499 / 500) = 499 / 500"
proof -
  have "round_ctx (499 / 500) = of_int 9980000000000000000000000000 * pow10 (- 28)"
    by (rule round_ctx_eqI) (simp_all add: pow10_def)
  then show ?thesis by (simp add: pow10_def)
qed

lemma rt_2: "round_ctx (499 / 5005000) = 997002997002997002997002997 / 10000000000000000000000000000000"
proof -
  have "round_ctx (499 / 5005000) = of_int 9970029970029970029970029970 * pow10 (- 32)"
    by (rule round_ctx_eqI) (simp_all add: pow10_def)
  then show ?thesis by (simp add: pow10_def)
qed

lemma rt_3: "round_ctx (9980 / 501) = 498003992015968063872255489 / 25000000000000000000000000"
proof -
  have "round_ctx (9980 / 501) = of_int 1992015968063872255489021956 * pow10 (- 26)"
    by (rule round_ctx_eqI) (simp_all add: pow10_def)
  then show ?thesis by (simp add: pow10_def)
qed

lemma rt_4: "round_ctx (50399 / 100) = 50399 / 100"
proof -
  have "round_ctx (50399 / 100) = of_int 5039900000000000000000000000 * pow10 (- 25)"
    by (rule round_ctx_eqI) (simp_all add: pow10_def)
  then show ?thesis by (simp add: pow10_def)
qed

lemma rt_5: "round_ctx (25098903193612774451097804390111 / 2500000000000000000000000000) = 62747257984031936127744511 / 6250000000000000000000"
proof -
  have "round_ctx (25098903193612774451097804390111 / 2500000000000000000000000000) = of_int 1003956127744510978043912176 * pow10 (- 23)"
    by (rule round_ctx_eqI) (simp_all add: pow10_def)
  then show ?thesis by (simp add: pow10_def)
qed

lemma rt_6: "round_ctx (10000000000000000000000000000000 / 997002997002997002997002997) = 100300601202404809619238477 / 10000000000000000000000"
proof -
  have "round_ctx (10000000000000000000000000000000 / 997002997002997002997002997) = of_int 1003006012024048096192384770 * pow10 (- 23)"
    by (rule round_ctx_eqI) (simp_all add: pow10_def)
  then show ?thesis by (simp add: pow10_def)
qed

lemma rt_7: "round_ctx (475057860231440925763703 / 50000000000000000000000) = 475057860231440925763703 / 50000000000000000000000"
proof -
  have "round_ctx (475057860231440925763703 / 50000000000000000000000) = of_int 9501157204628818515274060000 * pow10 (- 27)"
    by (rule round_ctx_eqI) (simp_all add: pow10_def)
  then show ?thesis by (simp add: pow10_def)
qed

lemma rt_8: "round_ctx (499 / 253000) = 1972332015810276679841897233 / 1000000000000000000000000000000"
proof -
  have "round_ctx (499 / 253000) = of_int 1972332015810276679841897233 * pow10 (- 30)"
    by (rule round_ctx_eqI) (simp_all add: pow10_def)
  then show ?thesis by (simp add: pow10_def)
qed

lemma rt_9: "round_ctx (499 / 10000) = 499 / 10000"
proof -
  have "round_ctx (499 / 10000) = of_int 4990000000000000000000000000 * pow10 (- 29)"
    by (rule round_ctx_eqI) (simp_all add: pow10_def)
  then show ?thesis by (simp add: pow10_def)
qed

lemma rt_10: "round_ctx (9980) = 9980"
proof -
  have "round_ctx (9980) = of_int 9980000000000000000000000000 * pow10 (- 24)"
    by (rule round_ctx_eqI) (simp_all add: pow10_def)
  then show ?thesis by (simp add: pow10_def)
qed

lemma rt_11: "round_ctx (249001 / 500) = 249001 / 500"
proof -
  have "round_ctx (249001 / 500) = of_int 4980020000000000000000000000 * pow10 (- 25)"
    by (rule round_ctx_eqI) (simp_all add: pow10_def)
  then show ?thesis by (simp add: pow10_def)
qed

lemma rt_12: "round_ctx (1000000000000000000000000000000 / 1972332015810276679841897233) = 1267535070140280561122244489 / 2500000000000000000000000"
proof -
  have "round_ctx (1000000000000000000000000000000 / 1972332015810276679841897233) = of_int 5070140280561122244488977956 * pow10 (- 25)"
    by (rule round_ctx_eqI) (simp_all add: pow10_def)
  then show ?thesis by (simp add: pow10_def)
qed

lemma rt_13: "round_ctx (22530070140280561122244489 / 2500000000000000000000000) = 22530070140280561122244489 / 2500000000000000000000000"
proof -
  have "round_ctx (22530070140280561122244489 / 2500000000000000000000000) = of_int 9012028056112224448897795600 * pow10 (- 27)"
    by (rule round_ctx_eqI) (simp_all add: pow10_def)
  then show ?thesis by (simp add: pow10_def)
qed

lemma rt_14: "round_ctx (12) = 12"
proof -
  have "round_ctx (12) = of_int 1200000000000000000000000000 * pow10 (- 26)"
    by (rule round_ctx_eqI) (simp_all add: pow10_def)
  then show ?thesis by (simp add: pow10_def)
qed

lemma rt_15: "round_ctx (1 / 2) = 1 / 2"
proof -
  have "round_ctx (1 / 2) = of_int 5000000000000000000000000000 * pow10 (- 28)"
    by (rule round_ctx_eqI) (simp_all add: pow10_def)
  then show ?thesis by (simp add: pow10_def)
qed

lemma rt_16: "round_ctx (23 / 2) = 23 / 2"
proof -
  have "round_ctx (23 / 2) = of_int 1150000000000000000000000000 * pow10 (- 26)"
    by (rule round_ctx_eqI) (simp_all add: pow10_def)
  then show ?thesis by (simp add: pow10_def)
qed

lemmas rt = rt_1 rt_2 rt_3 rt_4 rt_5 rt_6 rt_7 rt_8 rt_9 rt_10 rt_11 rt_12 rt_13 rt_14 rt_15 rt_16

lemma rl_1: "round_ctx (2001 / 2000) = 2001 / 2000"
proof -
  have "round_ctx (2001 / 2000) = of_int 1000500000000000000000000000 * pow10 (- 27)"
    by (rule round_ctx_eqI) (simp_all add: pow10_def)
  then show ?thesis by (simp add: pow10_def)
qed

lemma rl_2: "round_ctx (499 / 5000000) = 499 / 5000000"
proof -
  have "round_ctx (499 / 5000000) = of_int 9980000000000000000000000000 * pow10 (- 32)"
    by (rule round_ctx_eqI) (simp_all add: pow10_def)
  then show ?thesis by (simp add: pow10_def)
qed

lemma rl_3: "round_ctx (499 / 5002500) = 997501249375312343828085957 / 10000000000000000000000000000000"
proof -
  have "round_ctx (499 / 5002500) = of_int 9975012493753123438280859570 * pow10 (- 32)"
    by (rule round_ctx_eqI) (simp_all add: pow10_def)
  then show ?thesis by (simp add: pow10_def)
qed

lemma rl_4: "round_ctx (10005) = 10005"
proof -
  have "round_ctx (10005) = of_int 1000500000000000000000000000 * pow10 (- 23)"
    by (rule round_ctx_eqI) (simp_all add: pow10_def)
  then show ?thesis by (simp add: pow10_def)
qed

lemmas rl = rl_1 rl_2 rl_3 rl_4

lemma rb_1: "round_ctx (5) = 5"
proof -
  have "round_ctx (5) = of_int 5000000000000000000000000000 * pow10 (- 27)"
    by (rule round_ctx_eqI) (simp_all add: pow10_def)
  then show ?thesis by (simp add: pow10_def)
qed

lemma rb_2: "round_ctx (50) = 50"
proof -
  have "round_ctx (50) = of_int 5000000000000000000000000000 * pow10 (- 26)"
    by (rule round_ctx_eqI) (simp_all add: pow10_def)
  then show ?thesis by (simp add: pow10_def)
qed

lemma rb_3: "round_ctx (11) = 11"
proof -
  have "round_ctx (11) = of_int 1100000000000000000000000000 * pow10 (- 26)"
    by (rule round_ctx_eqI) (simp_all add: pow10_def)
  then show ?thesis by (simp add: pow10_def)
qed

lemma rb_4: "round_ctx (116) = 116"
proof -
  have "round_ctx (116) = of_int 1160000000000000000000000000 * pow10 (- 25)"
    by (rule round_ctx_eqI) (simp_all add: pow10_def)
  then show ?thesis by (simp add: pow10_def)
qed

lemma rb_5: "round_ctx (16) = 16"
proof -
  have "round_ctx (16) = of_int 1600000000000000000000000000 * pow10 (- 26)"
    by (rule round_ctx_eqI) (simp_all add: pow10_def)
  then show ?thesis by (simp add: pow10_def)
qed

lemma rb_6: "round_ctx (16 / 11) = 290909090909090909090909091 / 200000000000000000000000000"
proof -
  have "round_ctx (16 / 11) = of_int 1454545454545454545454545455 * pow10 (- 27)"
    by (rule round_ctx_eqI) (simp_all add: pow10_def)
  then show ?thesis by (simp add: pow10_def)
qed

lemma rb_7: "round_ctx (1909090909090909090909090909 / 200000000000000000000000000) = 1909090909090909090909090909 / 200000000000000000000000000"
proof -
  have "round_ctx (1909090909090909090909090909 / 200000000000000000000000000) = of_int 9545454545454545454545454545 * pow10 (- 27)"
    by (rule round_ctx_eqI) (simp_all add: pow10_def)
  then show ?thesis by (simp add: pow10_def)
qed

lemma rb_8: "round_ctx (952636363636363636363636363591 / 100000000000000000000000000000) = 2381590909090909090909090909 / 250000000000000000000000000"
proof -
  have "round_ctx (952636363636363636363636363591 / 100000000000000000000000000000) = of_int 9526363636363636363636363636 * pow10 (- 27)"
    by (rule round_ctx_eqI) (simp_all add: pow10_def)
  then show ?thesis by (simp add: pow10_def)
qed

lemma rb_9: "round_ctx (2381590909090909090909090909 / 25000000000000000000000000000) = 2381590909090909090909090909 / 25000000000000000000000000000"
proof -
  have "round_ctx (2381590909090909090909090909 / 25000000000000000000000000000) = of_int 9526363636363636363636363636 * pow10 (- 29)"
    by (rule round_ctx_eqI) (simp_all add: pow10_def)
  then show ?thesis by (simp add: pow10_def)
qed

lemma rb_10: "round_ctx (50 / 11) = 909090909090909090909090909 / 200000000000000000000000000"
proof -
  have "round_ctx (50 / 11) = of_int 4545454545454545454545454545 * pow10 (- 27)"
    by (rule round_ctx_eqI) (simp_all add: pow10_def)
  then show ?thesis by (simp add: pow10_def)
qed

lemma rb_11: "round_ctx (104) = 104"
proof -
  have "round_ctx (104) = of_int 1040000000000000000000000000 * pow10 (- 25)"
    by (rule round_ctx_eqI) (simp_all add: pow10_def)
  then show ?thesis by (simp add: pow10_def)
qed

lemma rb_12: "round_ctx (3) = 3"
proof -
  have "round_ctx (3) = of_int 3000000000000000000000000000 * pow10 (- 27)"
    by (rule round_ctx_eqI) (simp_all add: pow10_def)
  then show ?thesis by (simp add: pow10_def)
qed

lemma rb_13: "round_ctx (27) = 27"
proof -
  have "round_ctx (27) = of_int 2700000000000000000000000000 * pow10 (- 26)"
    by (rule round_ctx_eqI) (simp_all add: pow10_def)
  then show ?thesis by (simp add: pow10_def)
qed

lemma rb_14: "round_ctx (77) = 77"
proof -
  have "round_ctx (77) = of_int 7700000000000000000000000000 * pow10 (- 26)"
    by (rule round_ctx_eqI) (simp_all add: pow10_def)
  then show ?thesis by (simp add: pow10_def)
qed

lemma rb_15: "round_ctx (38423 / 500) = 38423 / 500"
proof -
  have "round_ctx (38423 / 500) = of_int 7684600000000000000000000000 * pow10 (- 26)"
    by (rule round_ctx_eqI) (simp_all add: pow10_def)
  then show ?thesis by (simp add: pow10_def)
qed

lemma rb_16: "round_ctx (38423 / 4000) = 38423 / 4000"
proof -
  have "round_ctx (38423 / 4000) = of_int 9605750000000000000000000000 * pow10 (- 27)"
    by (rule round_ctx_eqI) (simp_all add: pow10_def)
  then show ?thesis by (simp add: pow10_def)
qed

lemma rb_17: "round_ctx (5489 / 500) = 5489 / 500"
proof -
  have "round_ctx (5489 / 500) = of_int 1097800000000000000000000000 * pow10 (- 26)"
    by (rule round_ctx_eqI) (simp_all add: pow10_def)
  then show ?thesis by (simp add: pow10_def)
qed

lemma rb_18: "round_ctx (5489 / 58000) = 9463793103448275862068965517 / 100000000000000000000000000000"
proof -
  have "round_ctx (5489 / 58000) = of_int 9463793103448275862068965517 * pow10 (- 29)"
    by (rule round_ctx_eqI) (simp_all add: pow10_def)
  then show ?thesis by (simp add: pow10_def)
qed

lemmas rb = rb_1 rb_2 rb_3 rb_4 rb_5 rb_6 rb_7 rb_8 rb_9 rb_10 rb_11 rb_12 rb_13 rb_14 rb_15 rb_16 rb_17 rb_18

lemma rn_1: "round_ctx (498999999999999999999999999949 / 500000000000000000000000000000) = 9979999999999999999999999999 / 10000000000000000000000000000"
proof -
  have "round_ctx (498999999999999999999999999949 / 500000000000000000000000000000) = of_int 9979999999999999999999999999 * pow10 (- 28)"
    by (rule round_ctx_eqI) (simp_all add: pow10_def)
  then show ?thesis by (simp add: pow10_def)
qed

lemmas rn = rn_1

lemma rs_1: "round_ctx (1 / 200) = 1 / 200"
proof -
  have "round_ctx (1 / 200) = of_int 5000000000000000000000000000 * pow10 (- 30)"
    by (rule round_ctx_eqI) (simp_all add: pow10_def)
  then show ?thesis by (simp add: pow10_def)
qed

lemma rs_2: "round_ctx (1001 / 20) = 1001 / 20"
proof -
  have "round_ctx (1001 / 20) = of_int 5005000000000000000000000000 * pow10 (- 26)"
    by (rule round_ctx_eqI) (simp_all add: pow10_def)
  then show ?thesis by (simp add: pow10_def)
qed

lemma rs_3: "round_ctx (101 / 200) = 101 / 200"
proof -
  have "round_ctx (101 / 200) = of_int 5050000000000000000000000000 * pow10 (- 28)"
    by (rule round_ctx_eqI) (simp_all add: pow10_def)
  then show ?thesis by (simp add: pow10_def)
qed

lemma rs_4: "round_ctx (101201 / 20) = 101201 / 20"
proof -
  have "round_ctx (101201 / 20) = of_int 5060050000000000000000000000 * pow10 (- 24)"
    by (rule round_ctx_eqI) (simp_all add: pow10_def)
  then show ?thesis by (simp add: pow10_def)
qed

lemma rs_5: "round_ctx (99201 / 20) = 99201 / 20"
proof -
  have "round_ctx (99201 / 20) = of_int 4960050000000000000000000000 * pow10 (- 24)"
    by (rule round_ctx_eqI) (simp_all add: pow10_def)
  then show ?thesis by (simp add: pow10_def)
qed

lemma rs_6: "round_ctx (33067 / 66800) = 2475074850299401197604790419 / 5000000000000000000000000000"
proof -
  have "round_ctx (33067 / 66800) = of_int 4950149700598802395209580838 * pow10 (- 28)"
    by (rule round_ctx_eqI) (simp_all add: pow10_def)
  then show ?thesis by (simp add: pow10_def)
qed

lemma rs_7: "round_ctx (49925149700598802395209581 / 5000000000000000000000000000) = 49925149700598802395209581 / 5000000000000000000000000000"
proof -
  have "round_ctx (49925149700598802395209581 / 5000000000000000000000000000) = of_int 9985029940119760479041916200 * pow10 (- 30)"
    by (rule round_ctx_eqI) (simp_all add: pow10_def)
  then show ?thesis by (simp add: pow10_def)
qed

lemma rs_8: "round_ctx (24912649700598802395209580919 / 2500000000000000000000000000000) = 622816242514970059880239523 / 62500000000000000000000000000"
proof -
  have "round_ctx (24912649700598802395209580919 / 2500000000000000000000000000000) = of_int 9965059880239520958083832368 * pow10 (- 30)"
    by (rule round_ctx_eqI) (simp_all add: pow10_def)
  then show ?thesis by (simp add: pow10_def)
qed

lemma rs_9: "round_ctx (622816242514970059880239523 / 6250000000000000000000000000000) = 622816242514970059880239523 / 6250000000000000000000000000000"
proof -
  have "round_ctx (622816242514970059880239523 / 6250000000000000000000000000000) = of_int 9965059880239520958083832368 * pow10 (- 32)"
    by (rule round_ctx_eqI) (simp_all add: pow10_def)
  then show ?thesis by (simp add: pow10_def)
qed

lemma rs_10: "round_ctx (20) = 20"
proof -
  have "round_ctx (20) = of_int 2000000000000000000000000000 * pow10 (- 26)"
    by (rule round_ctx_eqI) (simp_all add: pow10_def)
  then show ?thesis by (simp add: pow10_def)
qed

lemma rs_11: "round_ctx (501 / 500) = 501 / 500"
proof -
  have "round_ctx (501 / 500) = of_int 1002000000000000000000000000 * pow10 (- 27)"
    by (rule round_ctx_eqI) (simp_all add: pow10_def)
  then show ?thesis by (simp add: pow10_def)
qed

lemma rs_12: "round_ctx (4960074850299401197604790419 / 5000000000000000000000000000) = 4960074850299401197604790419 / 5000000000000000000000000000"
proof -
  have "round_ctx (4960074850299401197604790419 / 5000000000000000000000000000) = of_int 9920149700598802395209580838 * pow10 (- 28)"
    by (rule round_ctx_eqI) (simp_all add: pow10_def)
  then show ?thesis by (simp add: pow10_def)
qed

lemma rs_13: "round_ctx (4960074850299401197604790419 / 250500000000000000000000000) = 1980069800518723032975964239 / 100000000000000000000000000"
proof -
  have "round_ctx (4960074850299401197604790419 / 250500000000000000000000000) = of_int 1980069800518723032975964239 * pow10 (- 26)"
    by (rule round_ctx_eqI) (simp_all add: pow10_def)
  then show ?thesis by (simp add: pow10_def)
qed

lemma rs_14: "round_ctx (19930199481276967024035761 / 100000000000000000000000000) = 19930199481276967024035761 / 100000000000000000000000000"
proof -
  have "round_ctx (19930199481276967024035761 / 100000000000000000000000000) = of_int 1993019948127696702403576100 * pow10 (- 28)"
    by (rule round_ctx_eqI) (simp_all add: pow10_def)
  then show ?thesis by (simp add: pow10_def)
qed

lemma rs_15: "round_ctx (9945169541157206544993844739 / 50000000000000000000000000000) = 497258477057860327249692237 / 2500000000000000000000000000"
proof -
  have "round_ctx (9945169541157206544993844739 / 50000000000000000000000000000) = of_int 1989033908231441308998768948 * pow10 (- 28)"
    by (rule round_ctx_eqI) (simp_all add: pow10_def)
  then show ?thesis by (simp add: pow10_def)
qed

lemma rs_16: "round_ctx (994516954115720654499384474 / 49925149700598802395209581) = 124500998003992015968063873 / 6250000000000000000000000"
proof -
  have "round_ctx (994516954115720654499384474 / 49925149700598802395209581) = of_int 1992015968063872255489021968 * pow10 (- 26)"
    by (rule round_ctx_eqI) (simp_all add: pow10_def)
  then show ?thesis by (simp add: pow10_def)
qed

lemma rs_17: "round_ctx (30) = 30"
proof -
  have "round_ctx (30) = of_int 3000000000000000000000000000 * pow10 (- 26)"
    by (rule round_ctx_eqI) (simp_all add: pow10_def)
  then show ?thesis by (simp add: pow10_def)
qed

lemma rs_18: "round_ctx (15150) = 15150"
proof -
  have "round_ctx (15150) = of_int 1515000000000000000000000000 * pow10 (- 23)"
    by (rule round_ctx_eqI) (simp_all add: pow10_def)
  then show ?thesis by (simp add: pow10_def)
qed

lemma rs_19: "round_ctx (2980069800518723032975964239 / 100000000000000000000000000) = 2980069800518723032975964239 / 100000000000000000000000000"
proof -
  have "round_ctx (2980069800518723032975964239 / 100000000000000000000000000) = of_int 2980069800518723032975964239 * pow10 (- 26)"
    by (rule round_ctx_eqI) (simp_all add: pow10_def)
  then show ?thesis by (simp add: pow10_def)
qed

lemma rs_20: "round_ctx (300987049852391026330572388139 / 20000000000000000000000000) = 1504935249261955131652861941 / 100000000000000000000000"
proof -
  have "round_ctx (300987049852391026330572388139 / 20000000000000000000000000) = of_int 1504935249261955131652861941 * pow10 (- 23)"
    by (rule round_ctx_eqI) (simp_all add: pow10_def)
  then show ?thesis by (simp add: pow10_def)
qed

lemma rs_21: "round_ctx (10064750738044868347138059 / 100000000000000000000000) = 10064750738044868347138059 / 100000000000000000000000"
proof -
  have "round_ctx (10064750738044868347138059 / 100000000000000000000000) = of_int 1006475073804486834713805900 * pow10 (- 25)"
    by (rule round_ctx_eqI) (simp_all add: pow10_def)
  then show ?thesis by (simp add: pow10_def)
qed

lemma rs_22: "round_ctx (5022310618284389305221891441 / 50000000000000000000000000) = 62778882728554866315273643 / 625000000000000000000000"
proof -
  have "round_ctx (5022310618284389305221891441 / 50000000000000000000000000) = of_int 1004462123656877861044378288 * pow10 (- 25)"
    by (rule round_ctx_eqI) (simp_all add: pow10_def)
  then show ?thesis by (simp add: pow10_def)
qed

lemma rs_23: "round_ctx (1434945890938396944349111840 / 2847171354468138146290823) = 2519949999999999999999999923 / 5000000000000000000000000"
proof -
  have "round_ctx (1434945890938396944349111840 / 2847171354468138146290823) = of_int 5039899999999999999999999846 * pow10 (- 25)"
    by (rule round_ctx_eqI) (simp_all add: pow10_def)
  then show ?thesis by (simp add: pow10_def)
qed

lemma rs_24: "round_ctx (313736289920159680638722547179773153692614770459081779 / 31250000000000000000000000000000000000000000000000) = 1003956127744510978043912151 / 100000000000000000000000"
proof -
  have "round_ctx (313736289920159680638722547179773153692614770459081779 / 31250000000000000000000000000000000000000000000000) = of_int 1003956127744510978043912151 * pow10 (- 23)"
    by (rule round_ctx_eqI) (simp_all add: pow10_def)
  then show ?thesis by (simp add: pow10_def)
qed

lemma rs_25: "round_ctx (6250000000000000000000000000000 / 622816242514970059880239523) = 1003506262900613821345840103 / 100000000000000000000000"
proof -
  have "round_ctx (6250000000000000000000000000000 / 622816242514970059880239523) = of_int 1003506262900613821345840103 * pow10 (- 23)"
    by (rule round_ctx_eqI) (simp_all add: pow10_def)
  then show ?thesis by (simp add: pow10_def)
qed

lemma rs_26: "round_ctx (28116552743572293629503 / 6250000000000000000000) = 28116552743572293629503 / 6250000000000000000000"
proof -
  have "round_ctx (28116552743572293629503 / 6250000000000000000000) = of_int 4498648438971566980720480000 * pow10 (- 27)"
    by (rule round_ctx_eqI) (simp_all add: pow10_def)
  then show ?thesis by (simp add: pow10_def)
qed

lemma rs_27: "round_ctx (64750738044868347138059 / 100000000000000000000000) = 64750738044868347138059 / 100000000000000000000000"
proof -
  have "round_ctx (64750738044868347138059 / 100000000000000000000000) = of_int 6475073804486834713805900000 * pow10 (- 28)"
    by (rule round_ctx_eqI) (simp_all add: pow10_def)
  then show ?thesis by (simp add: pow10_def)
qed

lemmas rs = rs_1 rs_2 rs_3 rs_4 rs_5 rs_6 rs_7 rs_8 rs_9 rs_10 rs_11 rs_12 rs_13 rs_14 rs_15 rs_16 rs_17 rs_18 rs_19 rs_20 rs_21 rs_22 rs_23 rs_24 rs_25 rs_26 rs_27

lemmas dec_defs = dec_add_def dec_sub_def dec_mul_def dec_div_def

lemmas leg_defs = leg_btc_usd_buy_def leg_eth_btc_buy_def leg_eth_usd_sell_def gain_btc_eth_def
  leg_eth_usd_buy_def leg_eth_btc_sell_def leg_btc_usd_sell_def gain_eth_btc_def

lemmas example_defs = usd_indicator_def init_indicator_def exmo_fees_def spec_tickers_def
  quote_of_def pair_name_def path_key_def

section \<open>Properties of the rate calculators\<close>

text \<open>
  Claim C3. For every ticker snapshot and every pair of currencies \<open>a\<close>, \<open>b\<close>, in both
  calculator variants \<^verbatim>\<open>get_pair_and_rate(a, b)\<close> returns \<^verbatim>\<open>None\<close> if and only if neither
  the direct pair \<open>a_b\<close> nor the inverse pair \<open>b_a\<close> is a key of the snapshot.
\<close>

theorem get_pair_and_rate_absent_iff:
  "get_pair_and_rate calc a b = Inr None \<longleftrightarrow>
     pair_name a b \<notin> dom (tickers calc) \<and> pair_name b a \<notin> dom (tickers calc)"
  by (cases calc) (auto simp: Let_def split: option.splits sum.splits)

section \<open>Properties of the indicator\<close>

lemma record_triangle_positive:
  "positive_gains (fst st) \<Longrightarrow> positive_gains (fst (record_triangle l1 l2 l3 g st))"
  by (cases st) (auto simp: record_triangle_def positive_gains_def gain_of_def Let_def)

lemma scan_curr2_positive:
  "positive_gains (fst st) \<Longrightarrow> positive_gains (fst (snd (scan_curr2 calc q c1 l1 cs st)))"
proof (induction cs arbitrary: st)
  case Nil
  then show ?case by simp
next
  case (Cons c2 cs)
  then show ?case
    by (auto simp: record_triangle_positive split: sum.splits option.splits)
qed

lemma scan_curr1_positive:
  "positive_gains (fst st) \<Longrightarrow> positive_gains (fst (snd (scan_curr1 calc q all cs st)))"
proof (induction cs arbitrary: st)
  case Nil
  then show ?case by simp
next
  case (Cons c1 cs)
  show ?case
  proof (cases "c1 = q")
    case True
    with Cons show ?thesis by simp
  next
    case False
    show ?thesis
    proof (cases "get_pair_and_rate calc c1 q")
      case (Inl e)
      with False Cons.prems show ?thesis by simp
    next
      case (Inr r)
      show ?thesis
      proof (cases r)
        case None
        with Inr False Cons show ?thesis by simp
      next
        case (Some leg1)
        obtain err st' where sc: "scan_curr2 calc q c1 leg1 all st = (err, st')"
          by (cases "scan_curr2 calc q c1 leg1 all st")
        have pos: "positive_gains (fst st')"
          using scan_curr2_positive [OF Cons.prems, of calc q c1 leg1 all] sc by simp
        show ?thesis
        proof (cases err)
          case None
          with Some Inr False sc Cons.IH [OF pos] show ?thesis by simp
        next
          case (Some e)
          with \<open>r = Some leg1\<close> Inr False sc pos show ?thesis by simp
        qed
      qed
    qed
  qed
qed

lemma update_positive:
  "positive_gains (arb_opps ind) \<Longrightarrow> positive_gains (arb_opps (fst (update ind tk)))"
proof -
  assume pos: "positive_gains (arb_opps ind)"
  let ?calc = "set_tickers (arb_calculator ind) tk"
  obtain err opps mg mp where sc:
    "scan_curr1 ?calc (quote_curr ind) (trading_currencies ind) (trading_currencies ind)
       (arb_opps ind, 0, []) = (err, (opps, mg, mp))"
    by (metis prod_cases3)
  have "positive_gains opps"
    using scan_curr1_positive [of "(arb_opps ind, 0, [])" ?calc "quote_curr ind"
        "trading_currencies ind" "trading_currencies ind"] pos sc by simp
  moreover have "arb_opps (fst (update ind tk)) = opps"
    using sc by (auto simp: update_def Let_def split: option.splits)
  ultimately show ?thesis by simp
qed

lemma run_updates_positive:
  "positive_gains (arb_opps ind) \<Longrightarrow> positive_gains (arb_opps (run_updates ind tks))"
  by (induction tks arbitrary: ind) (auto simp: update_positive)

lemma update_example:
  "arb_opps (fst (update usd_indicator spec_tickers)) =
     [''BTC_USD>ETH_BTC>ETH_USD'' \<mapsto>
        (leg_btc_usd_buy, leg_eth_btc_buy, leg_eth_usd_sell, gain_btc_eth)]"
  by (simp add: update_def example_defs leg_defs triangle_gain_def record_triangle_def Let_def
      dec_defs rt round_ctx_minus)

text \<open>
  Claim C10. Every entry of the indicator's opportunity cache has a strictly positive gain:
  the cache is empty at construction, \<^verbatim>\<open>update\<close> inserts a triangle only when its gain is
  greater than zero and nothing else writes the cache, so the invariant holds after every
  sequence of \<^verbatim>\<open>update\<close> calls, also after a call that ends with an exception.
\<close>

theorem cache_gains_positive:
  "arb_opps ind = Map.empty \<Longrightarrow> positive_gains (arb_opps (run_updates ind tks))"
  by (rule run_updates_positive) (simp add: positive_gains_def)

theorem cache_gains_positive_witness:
  "arb_opps usd_indicator = Map.empty \<and>
   arb_opps (run_updates usd_indicator [spec_tickers]) ''BTC_USD>ETH_BTC>ETH_USD'' =
     Some (leg_btc_usd_buy, leg_eth_btc_buy, leg_eth_usd_sell, gain_btc_eth) \<and>
   0 < gain_of (leg_btc_usd_buy, leg_eth_btc_buy, leg_eth_usd_sell, gain_btc_eth)"
proof -
  have e: "arb_opps usd_indicator = Map.empty"
    by (simp add: usd_indicator_def init_indicator_def)
  have entry: "arb_opps (run_updates usd_indicator [spec_tickers]) ''BTC_USD>ETH_BTC>ETH_USD'' =
      Some (leg_btc_usd_buy, leg_eth_btc_buy, leg_eth_usd_sell, gain_btc_eth)"
    by (simp add: update_example)
  have "positive_gains (arb_opps (run_updates usd_indicator [spec_tickers]))"
    using e by (rule cache_gains_positive)
  with entry have "0 < gain_of (leg_btc_usd_buy, leg_eth_btc_buy, leg_eth_usd_sell, gain_btc_eth)"
    unfolding positive_gains_def by blast
  with e entry show ?thesis by simp
qed

text \<open>
  Claim C4, as stated, fails. With the tickers of the end-to-end scenario the triangle USD,
  ETH, BTC, USD has its three legs in the snapshot, and its gain is about -9.01: \<^verbatim>\<open>update\<close>
  stores nothing under its path key, because line 85 stores a triangle only if its gain is
  greater than zero.
\<close>

theorem update_skips_nonpositive_triangle:
  "get_pair_and_rate (set_tickers (arb_calculator usd_indicator) spec_tickers) ''ETH'' ''USD'' =
     Inr (Some leg_eth_usd_buy) \<and>
   get_pair_and_rate (set_tickers (arb_calculator usd_indicator) spec_tickers) ''BTC'' ''ETH'' =
     Inr (Some leg_eth_btc_sell) \<and>
   get_pair_and_rate (set_tickers (arb_calculator usd_indicator) spec_tickers) ''USD'' ''BTC'' =
     Inr (Some leg_btc_usd_sell) \<and>
   triangle_gain leg_eth_usd_buy leg_eth_btc_sell leg_btc_usd_sell = Inr gain_eth_btc \<and>
   arb_opps (fst (update usd_indicator spec_tickers))
     (path_key leg_eth_usd_buy leg_eth_btc_sell leg_btc_usd_sell) = None"
proof -
  have "arb_opps (fst (update usd_indicator spec_tickers))
      (path_key leg_eth_usd_buy leg_eth_btc_sell leg_btc_usd_sell) = None"
    by (simp add: update_example) (simp add: path_key_def leg_defs)
  moreover have "triangle_gain leg_eth_usd_buy leg_eth_btc_sell leg_btc_usd_sell = Inr gain_eth_btc"
    by (simp add: triangle_gain_def leg_defs dec_defs rt round_ctx_minus)
  ultimately show ?thesis
    by (simp add: example_defs leg_defs dec_defs rt)
qed

lemma split_at_first:
  "x \<notin> set xs \<Longrightarrow> x \<notin> set xs' \<Longrightarrow>
   xs @ x # ys = xs' @ x # ys' \<longleftrightarrow> xs = xs' \<and> ys = ys'"
proof (induction xs arbitrary: xs')
  case Nil
  then show ?case by (cases xs') auto
next
  case (Cons a xs)
  then show ?case by (cases xs') auto
qed

lemma pair_name_eq:
  "currency_code a \<Longrightarrow> currency_code a' \<Longrightarrow> pair_name a b = pair_name a' b' \<longleftrightarrow> a = a' \<and> b = b'"
  using split_at_first [of "CHR ''_''" a a' b b']
  by (simp add: pair_name_def currency_code_def)

lemma pair_name_plain:
  "currency_code a \<Longrightarrow> currency_code b \<Longrightarrow> CHR ''>'' \<notin> set (pair_name a b)"
  by (simp add: pair_name_def currency_code_def)

lemma path_key_eq:
  "CHR ''>'' \<notin> set (pair l1) \<Longrightarrow> CHR ''>'' \<notin> set (pair l1') \<Longrightarrow>
   CHR ''>'' \<notin> set (pair l2) \<Longrightarrow> CHR ''>'' \<notin> set (pair l2') \<Longrightarrow>
   path_key l1 l2 l3 = path_key l1' l2' l3' \<longleftrightarrow>
     pair l1 = pair l1' \<and> pair l2 = pair l2' \<and> pair l3 = pair l3'"
proof -
  assume a: "CHR ''>'' \<notin> set (pair l1)" "CHR ''>'' \<notin> set (pair l1')"
    and b: "CHR ''>'' \<notin> set (pair l2)" "CHR ''>'' \<notin> set (pair l2')"
  have "path_key l1 l2 l3 = path_key l1' l2' l3' \<longleftrightarrow>
      pair l1 = pair l1' \<and> pair l2 @ CHR ''>'' # pair l3 = pair l2' @ CHR ''>'' # pair l3'"
    using split_at_first [OF a] by (simp add: path_key_def)
  also have "pair l2 @ CHR ''>'' # pair l3 = pair l2' @ CHR ''>'' # pair l3' \<longleftrightarrow>
      pair l2 = pair l2' \<and> pair l3 = pair l3'"
    by (rule split_at_first [OF b])
  finally show ?thesis .
qed

lemma get_pair_and_rate_pair:
  "get_pair_and_rate calc a b = Inr (Some l) \<Longrightarrow> pair l = pair_name a b \<or> pair l = pair_name b a"
  by (cases calc) (auto simp: Let_def split: option.splits sum.splits)

lemma same_path_same_triangle:
  assumes codes: "currency_code q" "currency_code c1" "currency_code c2"
      "currency_code c1'" "currency_code c2'"
    and ne: "c1 \<noteq> q" "c2 \<noteq> q" "c1' \<noteq> q" "c2' \<noteq> q"
    and legs: "get_pair_and_rate calc c1 q = Inr (Some l1)"
      "get_pair_and_rate calc c2 c1 = Inr (Some l2)"
      "get_pair_and_rate calc q c2 = Inr (Some l3)"
      "get_pair_and_rate calc c1' q = Inr (Some l1')"
      "get_pair_and_rate calc c2' c1' = Inr (Some l2')"
      "get_pair_and_rate calc q c2' = Inr (Some l3')"
    and key: "path_key l1 l2 l3 = path_key l1' l2' l3'"
  shows "c1 = c1' \<and> c2 = c2'"
proof -
  note p = legs [THEN get_pair_and_rate_pair]
  have plain: "CHR ''>'' \<notin> set (pair l1)" "CHR ''>'' \<notin> set (pair l1')"
    "CHR ''>'' \<notin> set (pair l2)" "CHR ''>'' \<notin> set (pair l2')"
    using p codes by (auto simp: pair_name_plain)
  from key have eq: "pair l1 = pair l1'" "pair l3 = pair l3'"
    by (simp_all add: path_key_eq [OF plain])
  have "c1 = c1'"
    using eq(1) p(1) p(4) codes ne by (auto simp: pair_name_eq)
  moreover have "c2 = c2'"
    using eq(2) p(3) p(6) codes ne by (auto simp: pair_name_eq)
  ultimately show ?thesis by simp
qed

lemma record_triangle_keeps:
  "fst st key = x \<Longrightarrow> (path_key l1 l2 l3 = key \<Longrightarrow> 0 < g \<Longrightarrow> Some (l1, l2, l3, g) = x) \<Longrightarrow>
   fst (record_triangle l1 l2 l3 g st) key = x"
  by (cases st) (auto simp: record_triangle_def Let_def)

lemma scan_curr2_keeps:
  assumes H: "\<And>c2 l2 l3 g. c2 \<in> set cs \<Longrightarrow> c2 \<noteq> q \<Longrightarrow> c2 \<noteq> c1 \<Longrightarrow>
      get_pair_and_rate calc c2 c1 = Inr (Some l2) \<Longrightarrow>
      get_pair_and_rate calc q c2 = Inr (Some l3) \<Longrightarrow>
      triangle_gain l1 l2 l3 = Inr g \<Longrightarrow> path_key l1 l2 l3 = key \<Longrightarrow> 0 < g \<Longrightarrow>
      Some (l1, l2, l3, g) = x"
    and K: "fst st key = x"
  shows "fst (snd (scan_curr2 calc q c1 l1 cs st)) key = x"
  using H K
proof (induction cs arbitrary: st)
  case Nil
  then show ?case by simp
next
  case (Cons c cs)
  have H': "Some (l1, l2, l3, g) = x"
    if "c2 \<in> set cs" "c2 \<noteq> q" "c2 \<noteq> c1" "get_pair_and_rate calc c2 c1 = Inr (Some l2)"
      "get_pair_and_rate calc q c2 = Inr (Some l3)" "triangle_gain l1 l2 l3 = Inr g"
      "path_key l1 l2 l3 = key" "0 < g" for c2 l2 l3 g
    using Cons.prems(1) [of c2 l2 l3 g] that by simp
  have IH: "fst (snd (scan_curr2 calc q c1 l1 cs st')) key = x" if "fst st' key = x" for st'
    using H' that by (rule Cons.IH)
  show ?case
  proof (cases "c = q \<or> c = c1")
    case True
    then show ?thesis using IH [OF Cons.prems(2)] by auto
  next
    case False
    show ?thesis
    proof (cases "get_pair_and_rate calc c c1")
      case (Inl e)
      with False Cons.prems(2) show ?thesis by simp
    next
      case l2: (Inr r2)
      show ?thesis
      proof (cases r2)
        case None
        with l2 False IH [OF Cons.prems(2)] show ?thesis by simp
      next
        case r2: (Some leg2)
        show ?thesis
        proof (cases "get_pair_and_rate calc q c")
          case (Inl e)
          with l2 r2 False Cons.prems(2) show ?thesis by simp
        next
          case l3: (Inr r3)
          show ?thesis
          proof (cases r3)
            case None
            with l2 r2 l3 False IH [OF Cons.prems(2)] show ?thesis by simp
          next
            case r3: (Some leg3)
            show ?thesis
            proof (cases "triangle_gain l1 leg2 leg3")
              case (Inl e)
              with l2 r2 l3 r3 False Cons.prems(2) show ?thesis by simp
            next
              case g: (Inr gain)
              have "fst (record_triangle l1 leg2 leg3 gain st) key = x"
                using Cons.prems(2)
              proof (rule record_triangle_keeps)
                assume "path_key l1 leg2 leg3 = key" "0 < gain"
                then show "Some (l1, leg2, leg3, gain) = x"
                  using Cons.prems(1) [of c leg2 leg3 gain] False l2 r2 l3 r3 g by simp
              qed
              from IH [OF this] l2 r2 l3 r3 g False show ?thesis by simp
            qed
          qed
        qed
      qed
    qed
  qed
qed

lemma scan_curr2_Cons_cases:
  obtains (err) e where "scan_curr2 calc q c1 l1 (c # cs) st = (Some e, st)"
  | (skip) "scan_curr2 calc q c1 l1 (c # cs) st = scan_curr2 calc q c1 l1 cs st"
      "c = q \<or> c = c1 \<or> get_pair_and_rate calc c c1 = Inr None \<or>
       get_pair_and_rate calc q c = Inr None"
  | (store) l2 l3 g where "c \<noteq> q" "c \<noteq> c1"
      "get_pair_and_rate calc c c1 = Inr (Some l2)" "get_pair_and_rate calc q c = Inr (Some l3)"
      "triangle_gain l1 l2 l3 = Inr g"
      "scan_curr2 calc q c1 l1 (c # cs) st =
         scan_curr2 calc q c1 l1 cs (record_triangle l1 l2 l3 g st)"
proof -
  have "(\<exists>e. scan_curr2 calc q c1 l1 (c # cs) st = (Some e, st)) \<or>
    (scan_curr2 calc q c1 l1 (c # cs) st = scan_curr2 calc q c1 l1 cs st \<and>
     (c = q \<or> c = c1 \<or> get_pair_and_rate calc c c1 = Inr None \<or>
      get_pair_and_rate calc q c = Inr None)) \<or>
    (\<exists>l2 l3 g. c \<noteq> q \<and> c \<noteq> c1 \<and> get_pair_and_rate calc c c1 = Inr (Some l2) \<and>
       get_pair_and_rate calc q c = Inr (Some l3) \<and> triangle_gain l1 l2 l3 = Inr g \<and>
       scan_curr2 calc q c1 l1 (c # cs) st =
         scan_curr2 calc q c1 l1 cs (record_triangle l1 l2 l3 g st))"
    by (simp split: sum.splits option.splits)
  then show thesis using err skip store by blast
qed

lemma record_triangle_stores:
  "0 < g \<Longrightarrow> fst (record_triangle l1 l2 l3 g st) (path_key l1 l2 l3) = Some (l1, l2, l3, g)"
  by (cases st) (auto simp: record_triangle_def Let_def)

lemma scan_curr2_stores:
  assumes H: "\<And>c2 l2 l3 g. c2 \<in> set cs \<Longrightarrow> c2 \<noteq> q \<Longrightarrow> c2 \<noteq> c1 \<Longrightarrow>
      get_pair_and_rate calc c2 c1 = Inr (Some l2) \<Longrightarrow>
      get_pair_and_rate calc q c2 = Inr (Some l3) \<Longrightarrow>
      triangle_gain l1 l2 l3 = Inr g \<Longrightarrow> path_key l1 l2 l3 = path_key l1 leg2 leg3 \<Longrightarrow> 0 < g \<Longrightarrow>
      Some (l1, l2, l3, g) = Some (l1, leg2, leg3, gain)"
    and c: "curr2 \<in> set cs" "curr2 \<noteq> q" "curr2 \<noteq> c1"
    and legs: "get_pair_and_rate calc curr2 c1 = Inr (Some leg2)"
      "get_pair_and_rate calc q curr2 = Inr (Some leg3)"
    and gain: "triangle_gain l1 leg2 leg3 = Inr gain" "0 < gain"
    and ok: "fst (scan_curr2 calc q c1 l1 cs st) = None"
  shows "fst (snd (scan_curr2 calc q c1 l1 cs st)) (path_key l1 leg2 leg3) =
    Some (l1, leg2, leg3, gain)"
  using H c(1) ok
proof (induction cs arbitrary: st)
  case Nil
  then show ?case by simp
next
  case (Cons c cs)
  let ?key = "path_key l1 leg2 leg3"
  let ?v = "Some (l1, leg2, leg3, gain)"
  have H': "Some (l1, l2, l3, g) = ?v"
    if "c2 \<in> set cs" "c2 \<noteq> q" "c2 \<noteq> c1" "get_pair_and_rate calc c2 c1 = Inr (Some l2)"
      "get_pair_and_rate calc q c2 = Inr (Some l3)" "triangle_gain l1 l2 l3 = Inr g"
      "path_key l1 l2 l3 = ?key" "0 < g" for c2 l2 l3 g
    using Cons.prems(1) [of c2 l2 l3 g] that by simp
  have IH: "fst (snd (scan_curr2 calc q c1 l1 cs st')) ?key = ?v"
    if "curr2 \<in> set cs" "fst (scan_curr2 calc q c1 l1 cs st') = None" for st'
    using H' that by (rule Cons.IH)
  have keeps: "fst (snd (scan_curr2 calc q c1 l1 cs st')) ?key = ?v" if "fst st' ?key = ?v" for st'
    using H' that by (rule scan_curr2_keeps)
  show ?case
  proof (cases rule: scan_curr2_Cons_cases [of calc q c1 l1 c cs st])
    case (err e)
    with Cons.prems(3) show ?thesis by simp
  next
    case skip
    with c legs have "c \<noteq> curr2" by auto
    with Cons.prems(2) have "curr2 \<in> set cs" by simp
    then show ?thesis using IH [of st] Cons.prems(3) skip(1) by simp
  next
    case (store l2 l3 g)
    show ?thesis
    proof (cases "c = curr2")
      case True
      with store legs gain have "l2 = leg2" "l3 = leg3" "g = gain" by simp_all
      then have "fst (record_triangle l1 l2 l3 g st) ?key = ?v"
        using gain(2) by (simp add: record_triangle_stores)
      from keeps [OF this] store(6) show ?thesis by simp
    next
      case False
      with Cons.prems(2) have "curr2 \<in> set cs" by simp
      then show ?thesis
        using IH [of "record_triangle l1 l2 l3 g st"] Cons.prems(3) store(6) by simp
    qed
  qed
qed

lemma scan_curr1_Cons_cases:
  obtains (skip) "scan_curr1 calc q all (c # cs) st = scan_curr1 calc q all cs st"
      "c = q \<or> get_pair_and_rate calc c q = Inr None"
  | (err) e where "scan_curr1 calc q all (c # cs) st = (Some e, st)"
  | (inner_err) l1 e st' where "c \<noteq> q" "get_pair_and_rate calc c q = Inr (Some l1)"
      "scan_curr2 calc q c l1 all st = (Some e, st')"
      "scan_curr1 calc q all (c # cs) st = (Some e, st')"
  | (inner) l1 st' where "c \<noteq> q" "get_pair_and_rate calc c q = Inr (Some l1)"
      "scan_curr2 calc q c l1 all st = (None, st')"
      "scan_curr1 calc q all (c # cs) st = scan_curr1 calc q all cs st'"
proof -
  have "(scan_curr1 calc q all (c # cs) st = scan_curr1 calc q all cs st \<and>
      (c = q \<or> get_pair_and_rate calc c q = Inr None)) \<or>
    (\<exists>e. scan_curr1 calc q all (c # cs) st = (Some e, st)) \<or>
    (\<exists>l1 e st'. c \<noteq> q \<and> get_pair_and_rate calc c q = Inr (Some l1) \<and>
       scan_curr2 calc q c l1 all st = (Some e, st') \<and>
       scan_curr1 calc q all (c # cs) st = (Some e, st')) \<or>
    (\<exists>l1 st'. c \<noteq> q \<and> get_pair_and_rate calc c q = Inr (Some l1) \<and>
       scan_curr2 calc q c l1 all st = (None, st') \<and>
       scan_curr1 calc q all (c # cs) st = scan_curr1 calc q all cs st')"
    by (simp split: sum.splits option.splits prod.splits)
  then show thesis using skip err inner_err inner by blast
qed

lemma scan_curr1_keeps:
  assumes H: "\<And>c1 c2 l1 l2 l3 g. c1 \<in> set cs \<Longrightarrow> c2 \<in> set all \<Longrightarrow> c1 \<noteq> q \<Longrightarrow> c2 \<noteq> q \<Longrightarrow>
      c2 \<noteq> c1 \<Longrightarrow> get_pair_and_rate calc c1 q = Inr (Some l1) \<Longrightarrow>
      get_pair_and_rate calc c2 c1 = Inr (Some l2) \<Longrightarrow>
      get_pair_and_rate calc q c2 = Inr (Some l3) \<Longrightarrow>
      triangle_gain l1 l2 l3 = Inr g \<Longrightarrow> path_key l1 l2 l3 = key \<Longrightarrow> 0 < g \<Longrightarrow>
      Some (l1, l2, l3, g) = x"
    and K: "fst st key = x"
  shows "fst (snd (scan_curr1 calc q all cs st)) key = x"
  using H K
proof (induction cs arbitrary: st)
  case Nil
  then show ?case by simp
next
  case (Cons c cs)
  have H': "Some (l1, l2, l3, g) = x"
    if "c1 \<in> set cs" "c2 \<in> set all" "c1 \<noteq> q" "c2 \<noteq> q" "c2 \<noteq> c1"
      "get_pair_and_rate calc c1 q = Inr (Some l1)" "get_pair_and_rate calc c2 c1 = Inr (Some l2)"
      "get_pair_and_rate calc q c2 = Inr (Some l3)" "triangle_gain l1 l2 l3 = Inr g"
      "path_key l1 l2 l3 = key" "0 < g" for c1 c2 l1 l2 l3 g
    using Cons.prems(1) [of c1 c2 l1 l2 l3 g] that by simp
  have IH: "fst (snd (scan_curr1 calc q all cs st')) key = x" if "fst st' key = x" for st'
    using H' that by (rule Cons.IH)
  have inner_keeps: "fst (snd (scan_curr2 calc q c l1 all st)) key = x"
    if "c \<noteq> q" "get_pair_and_rate calc c q = Inr (Some l1)" for l1
  proof (rule scan_curr2_keeps [OF _ Cons.prems(2)])
    fix c2 l2 l3 g
    assume "c2 \<in> set all" "c2 \<noteq> q" "c2 \<noteq> c" "get_pair_and_rate calc c2 c = Inr (Some l2)"
      "get_pair_and_rate calc q c2 = Inr (Some l3)" "triangle_gain l1 l2 l3 = Inr g"
      "path_key l1 l2 l3 = key" "0 < g"
    then show "Some (l1, l2, l3, g) = x"
      using Cons.prems(1) [of c c2 l1 l2 l3 g] that by simp
  qed
  show ?case
  proof (cases rule: scan_curr1_Cons_cases [of calc q all c cs st])
    case skip
    then show ?thesis using IH [OF Cons.prems(2)] by simp
  next
    case (err e)
    then show ?thesis using Cons.prems(2) by simp
  next
    case (inner_err l1 e st')
    then show ?thesis using inner_keeps [of l1] by simp
  next
    case (inner l1 st')
    then have "fst st' key = x" using inner_keeps [of l1] by simp
    from IH [OF this] inner(4) show ?thesis by simp
  qed
qed

lemma scan_curr1_stores:
  assumes H: "\<And>c1 c2 l1 l2 l3 g. c1 \<in> set cs \<Longrightarrow> c2 \<in> set all \<Longrightarrow> c1 \<noteq> q \<Longrightarrow> c2 \<noteq> q \<Longrightarrow>
      c2 \<noteq> c1 \<Longrightarrow> get_pair_and_rate calc c1 q = Inr (Some l1) \<Longrightarrow>
      get_pair_and_rate calc c2 c1 = Inr (Some l2) \<Longrightarrow>
      get_pair_and_rate calc q c2 = Inr (Some l3) \<Longrightarrow>
      triangle_gain l1 l2 l3 = Inr g \<Longrightarrow> path_key l1 l2 l3 = path_key leg1 leg2 leg3 \<Longrightarrow>
      0 < g \<Longrightarrow> Some (l1, l2, l3, g) = Some (leg1, leg2, leg3, gain)"
    and c: "curr1 \<in> set cs" "curr2 \<in> set all" "curr1 \<noteq> q" "curr2 \<noteq> q" "curr2 \<noteq> curr1"
    and legs: "get_pair_and_rate calc curr1 q = Inr (Some leg1)"
      "get_pair_and_rate calc curr2 curr1 = Inr (Some leg2)"
      "get_pair_and_rate calc q curr2 = Inr (Some leg3)"
    and gain: "triangle_gain leg1 leg2 leg3 = Inr gain" "0 < gain"
    and ok: "fst (scan_curr1 calc q all cs st) = None"
  shows "fst (snd (scan_curr1 calc q all cs st)) (path_key leg1 leg2 leg3) =
    Some (leg1, leg2, leg3, gain)"
  using H c(1) ok
proof (induction cs arbitrary: st)
  case Nil
  then show ?case by simp
next
  case (Cons c cs)
  let ?key = "path_key leg1 leg2 leg3"
  let ?v = "Some (leg1, leg2, leg3, gain)"
  have H': "Some (l1, l2, l3, g) = ?v"
    if "c1 \<in> set cs" "c2 \<in> set all" "c1 \<noteq> q" "c2 \<noteq> q" "c2 \<noteq> c1"
      "get_pair_and_rate calc c1 q = Inr (Some l1)" "get_pair_and_rate calc c2 c1 = Inr (Some l2)"
      "get_pair_and_rate calc q c2 = Inr (Some l3)" "triangle_gain l1 l2 l3 = Inr g"
      "path_key l1 l2 l3 = ?key" "0 < g" for c1 c2 l1 l2 l3 g
    using Cons.prems(1) [of c1 c2 l1 l2 l3 g] that by simp
  have IH: "fst (snd (scan_curr1 calc q all cs st')) ?key = ?v"
    if "curr1 \<in> set cs" "fst (scan_curr1 calc q all cs st') = None" for st'
    using H' that by (rule Cons.IH)
  have keeps: "fst (snd (scan_curr1 calc q all cs st')) ?key = ?v" if "fst st' ?key = ?v" for st'
    using H' that by (rule scan_curr1_keeps)
  show ?case
  proof (cases rule: scan_curr1_Cons_cases [of calc q all c cs st])
    case skip
    with c legs have "c \<noteq> curr1" by auto
    with Cons.prems(2) have "curr1 \<in> set cs" by simp
    then show ?thesis using IH [of st] Cons.prems(3) skip(1) by simp
  next
    case (err e)
    with Cons.prems(3) show ?thesis by simp
  next
    case (inner_err l1 e st')
    with Cons.prems(3) show ?thesis by simp
  next
    case (inner l1 st')
    show ?thesis
    proof (cases "c = curr1")
      case True
      with inner legs have l1: "l1 = leg1" by simp
      have "fst (snd (scan_curr2 calc q curr1 leg1 all st)) ?key = ?v"
      proof (rule scan_curr2_stores [OF _ c(2) c(4) c(5) legs(2) legs(3) gain])
        fix c2 l2 l3 g
        assume "c2 \<in> set all" "c2 \<noteq> q" "c2 \<noteq> curr1"
          "get_pair_and_rate calc c2 curr1 = Inr (Some l2)"
          "get_pair_and_rate calc q c2 = Inr (Some l3)" "triangle_gain leg1 l2 l3 = Inr g"
          "path_key leg1 l2 l3 = ?key" "0 < g"
        then show "Some (leg1, l2, l3, g) = ?v"
          using Cons.prems(1) [of curr1 c2 leg1 l2 l3 g] True c(3) legs(1) by simp
      next
        show "fst (scan_curr2 calc q curr1 leg1 all st) = None"
          using inner(3) True l1 by simp
      qed
      then have "fst st' ?key = ?v" using inner(3) True l1 by simp
      from keeps [OF this] inner(4) show ?thesis by simp
    next
      case False
      with Cons.prems(2) have "curr1 \<in> set cs" by simp
      then show ?thesis using IH [of st'] Cons.prems(3) inner(4) by simp
    qed
  qed
qed

lemma update_result:
  "(\<exists>e. snd (update ind tk) = Inl e) \<or> 
   fst (scan_curr1 (set_tickers (arb_calculator ind) tk) (quote_curr ind)
      (trading_currencies ind) (trading_currencies ind) (arb_opps ind, 0, [])) = None"
  by (auto simp: update_def Let_def split: option.splits prod.splits)

lemma update_cache:
  "arb_opps (fst (update ind tk)) =
   fst (snd (scan_curr1 (set_tickers (arb_calculator ind) tk) (quote_curr ind)
      (trading_currencies ind) (trading_currencies ind) (arb_opps ind, 0, [])))"
  by (auto simp: update_def Let_def split: option.splits prod.splits)

lemma stale_update_example:
  "update stale_indicator spec_tickers =
     (stale_indicator
        \<lparr>arb_calculator := MarketOrderArbCalculator (1 / 500) spec_tickers,
         arb_opps :=
           [''BTC_USD>ETH_BTC>ETH_USD'' \<mapsto>
              (leg_btc_usd_buy, leg_eth_btc_buy, leg_eth_usd_sell, gain_btc_eth),
            ''ETH_USD>ETH_BTC>BTC_USD'' \<mapsto>
              (leg_eth_usd_buy, leg_eth_btc_sell, leg_btc_usd_sell, 2)]\<rparr>,
      Inr None)"
  by (simp add: update_def stale_indicator_def example_defs leg_defs triangle_gain_def
      record_triangle_def path_key_def Let_def dec_defs rt round_ctx_minus fun_upd_twist)

text \<open>
  Claim C4, amended. Let the currency codes be free of the two separators, and let
  \<^verbatim>\<open>curr1\<close> and \<^verbatim>\<open>curr2\<close> be two trading currencies, different from each other and from
  the quote currency, whose three legs are in the ticker snapshot. If the gain of the
  triangle is strictly positive, a call of \<^verbatim>\<open>update\<close> that returns without an exception
  leaves the tuple \<open>(leg1, leg2, leg3, gain)\<close> in the cache under the path key of the
  triangle, whatever was stored there before and whatever the other triangles of the call
  stored. If the gain is zero or negative, \<^verbatim>\<open>update\<close> leaves the entry under that path key
  as it was before the call.
\<close>

theorem update_stores_positive_triangle:
  assumes codes: "\<forall>c\<in>set (quote_curr ind # trading_currencies ind). currency_code c"
    and c: "curr1 \<in> set (trading_currencies ind)" "curr2 \<in> set (trading_currencies ind)"
      "curr1 \<noteq> quote_curr ind" "curr2 \<noteq> quote_curr ind" "curr2 \<noteq> curr1"
    and legs:
      "get_pair_and_rate (set_tickers (arb_calculator ind) tk) curr1 (quote_curr ind) =
         Inr (Some leg1)"
      "get_pair_and_rate (set_tickers (arb_calculator ind) tk) curr2 curr1 = Inr (Some leg2)"
      "get_pair_and_rate (set_tickers (arb_calculator ind) tk) (quote_curr ind) curr2 =
         Inr (Some leg3)"
    and gain: "triangle_gain leg1 leg2 leg3 = Inr gain"
  shows "(0 < gain \<and> snd (update ind tk) = Inr sig \<longrightarrow>
           arb_opps (fst (update ind tk)) (path_key leg1 leg2 leg3) =
             Some (leg1, leg2, leg3, gain)) \<and>
         (gain \<le> 0 \<longrightarrow>
           arb_opps (fst (update ind tk)) (path_key leg1 leg2 leg3) =
             arb_opps ind (path_key leg1 leg2 leg3))"
proof -
  let ?calc = "set_tickers (arb_calculator ind) tk"
  let ?q = "quote_curr ind"
  let ?all = "trading_currencies ind"
  let ?key = "path_key leg1 leg2 leg3"
  have same: "l1 = leg1 \<and> l2 = leg2 \<and> l3 = leg3 \<and> g = gain"
    if "c1 \<in> set ?all" "c2 \<in> set ?all" "c1 \<noteq> ?q" "c2 \<noteq> ?q"
      "get_pair_and_rate ?calc c1 ?q = Inr (Some l1)"
      "get_pair_and_rate ?calc c2 c1 = Inr (Some l2)"
      "get_pair_and_rate ?calc ?q c2 = Inr (Some l3)"
      "triangle_gain l1 l2 l3 = Inr g" "path_key l1 l2 l3 = ?key" for c1 c2 l1 l2 l3 g
  proof -
    have "c1 = curr1 \<and> c2 = curr2"
      using codes c that
      by (intro same_path_same_triangle [of ?q c1 c2 curr1 curr2 ?calc l1 l2 l3 leg1 leg2 leg3])
        (simp_all add: legs)
    with that legs gain show ?thesis by simp
  qed
  have stored: "arb_opps (fst (update ind tk)) ?key = Some (leg1, leg2, leg3, gain)"
    if pos: "0 < gain" and ret: "snd (update ind tk) = Inr sig"
  proof -
    have ok: "fst (scan_curr1 ?calc ?q ?all ?all (arb_opps ind, 0, [])) = None"
      using update_result [of ind tk] ret by simp
    have "fst (snd (scan_curr1 ?calc ?q ?all ?all (arb_opps ind, 0, []))) ?key =
        Some (leg1, leg2, leg3, gain)"
    proof (rule scan_curr1_stores [OF _ c legs gain pos ok])
      fix c1 c2 l1 l2 l3 g
      assume "c1 \<in> set ?all" "c2 \<in> set ?all" "c1 \<noteq> ?q" "c2 \<noteq> ?q" "c2 \<noteq> c1"
        "get_pair_and_rate ?calc c1 ?q = Inr (Some l1)"
        "get_pair_and_rate ?calc c2 c1 = Inr (Some l2)"
        "get_pair_and_rate ?calc ?q c2 = Inr (Some l3)"
        "triangle_gain l1 l2 l3 = Inr g" "path_key l1 l2 l3 = ?key" "0 < g"
      then show "Some (l1, l2, l3, g) = Some (leg1, leg2, leg3, gain)"
        using same [of c1 c2 l1 l2 l3 g] by simp
    qed
    then show ?thesis by (simp add: update_cache)
  qed
  have kept: "arb_opps (fst (update ind tk)) ?key = arb_opps ind ?key" if neg: "gain \<le> 0"
  proof -
    have "fst (snd (scan_curr1 ?calc ?q ?all ?all (arb_opps ind, 0, []))) ?key =
        arb_opps ind ?key"
    proof (rule scan_curr1_keeps)
      fix c1 c2 l1 l2 l3 g
      assume "c1 \<in> set ?all" "c2 \<in> set ?all" "c1 \<noteq> ?q" "c2 \<noteq> ?q" "c2 \<noteq> c1"
        "get_pair_and_rate ?calc c1 ?q = Inr (Some l1)"
        "get_pair_and_rate ?calc c2 c1 = Inr (Some l2)"
        "get_pair_and_rate ?calc ?q c2 = Inr (Some l3)"
        "triangle_gain l1 l2 l3 = Inr g" "path_key l1 l2 l3 = ?key" "0 < g"
      then show "Some (l1, l2, l3, g) = arb_opps ind ?key"
        using same [of c1 c2 l1 l2 l3 g] neg by simp
    next
      show "fst (arb_opps ind, 0 :: rat, [] :: string) ?key = arb_opps ind ?key" by simp
    qed
    then show ?thesis by (simp add: update_cache)
  qed
  from stored kept show ?thesis by blast
qed

theorem update_stores_positive_triangle_witness:
  "quote_curr stale_indicator = ''USD'' \<and>
   trading_currencies stale_indicator = [''USD'', ''BTC'', ''ETH''] \<and>
   currency_code ''USD'' \<and> currency_code ''BTC'' \<and> currency_code ''ETH'' \<and>
   get_pair_and_rate (set_tickers (arb_calculator stale_indicator) spec_tickers) ''BTC'' ''USD'' =
     Inr (Some leg_btc_usd_buy) \<and>
   get_pair_and_rate (set_tickers (arb_calculator stale_indicator) spec_tickers) ''ETH'' ''BTC'' =
     Inr (Some leg_eth_btc_buy) \<and>
   get_pair_and_rate (set_tickers (arb_calculator stale_indicator) spec_tickers) ''USD'' ''ETH'' =
     Inr (Some leg_eth_usd_sell) \<and>
   triangle_gain leg_btc_usd_buy leg_eth_btc_buy leg_eth_usd_sell = Inr gain_btc_eth \<and>
   0 < gain_btc_eth \<and>
   snd (update stale_indicator spec_tickers) = Inr None \<and>
   arb_opps stale_indicator ''BTC_USD>ETH_BTC>ETH_USD'' =
     Some (leg_btc_usd_buy, leg_eth_btc_buy, leg_eth_usd_sell, 1) \<and>
   arb_opps (fst (update stale_indicator spec_tickers)) ''BTC_USD>ETH_BTC>ETH_USD'' =
     Some (leg_btc_usd_buy, leg_eth_btc_buy, leg_eth_usd_sell, gain_btc_eth) \<and>
   get_pair_and_rate (set_tickers (arb_calculator stale_indicator) spec_tickers) ''ETH'' ''USD'' =
     Inr (Some leg_eth_usd_buy) \<and>
   get_pair_and_rate (set_tickers (arb_calculator stale_indicator) spec_tickers) ''BTC'' ''ETH'' =
     Inr (Some leg_eth_btc_sell) \<and>
   get_pair_and_rate (set_tickers (arb_calculator stale_indicator) spec_tickers) ''USD'' ''BTC'' =
     Inr (Some leg_btc_usd_sell) \<and>
   triangle_gain leg_eth_usd_buy leg_eth_btc_sell leg_btc_usd_sell = Inr gain_eth_btc \<and>
   gain_eth_btc \<le> 0 \<and>
   arb_opps (fst (update stale_indicator spec_tickers)) ''ETH_USD>ETH_BTC>BTC_USD'' =
     Some (leg_eth_usd_buy, leg_eth_btc_sell, leg_btc_usd_sell, 2)"
proof -
  let ?calc = "set_tickers (arb_calculator stale_indicator) spec_tickers"
  have codes: "\<forall>c\<in>set (quote_curr stale_indicator # trading_currencies stale_indicator).
      currency_code c"
    by (simp add: stale_indicator_def usd_indicator_def init_indicator_def currency_code_def)
  have cs: "''BTC'' \<in> set (trading_currencies stale_indicator)"
    "''ETH'' \<in> set (trading_currencies stale_indicator)"
    "''BTC'' \<noteq> quote_curr stale_indicator" "''ETH'' \<noteq> quote_curr stale_indicator"
    by (simp_all add: stale_indicator_def usd_indicator_def init_indicator_def)
  have a: "get_pair_and_rate ?calc ''BTC'' (quote_curr stale_indicator) = Inr (Some leg_btc_usd_buy)"
    "get_pair_and_rate ?calc ''ETH'' ''BTC'' = Inr (Some leg_eth_btc_buy)"
    "get_pair_and_rate ?calc (quote_curr stale_indicator) ''ETH'' = Inr (Some leg_eth_usd_sell)"
    by (simp_all add: stale_indicator_def example_defs leg_defs dec_defs rt)
  have b: "get_pair_and_rate ?calc ''ETH'' (quote_curr stale_indicator) = Inr (Some leg_eth_usd_buy)"
    "get_pair_and_rate ?calc ''BTC'' ''ETH'' = Inr (Some leg_eth_btc_sell)"
    "get_pair_and_rate ?calc (quote_curr stale_indicator) ''BTC'' = Inr (Some leg_btc_usd_sell)"
    by (simp_all add: stale_indicator_def example_defs leg_eth_usd_buy_def leg_eth_btc_sell_def
        leg_btc_usd_sell_def dec_defs rt)
  have q: "quote_curr stale_indicator = ''USD''"
    by (simp add: stale_indicator_def usd_indicator_def init_indicator_def)
  have ga: "triangle_gain leg_btc_usd_buy leg_eth_btc_buy leg_eth_usd_sell = Inr gain_btc_eth"
    by (simp add: triangle_gain_def leg_defs dec_defs rt)
  have gb: "triangle_gain leg_eth_usd_buy leg_eth_btc_sell leg_btc_usd_sell = Inr gain_eth_btc"
    by (simp add: triangle_gain_def leg_eth_usd_buy_def leg_eth_btc_sell_def
        leg_btc_usd_sell_def gain_eth_btc_def dec_defs rt round_ctx_minus)
  have pos: "0 < gain_btc_eth" by (simp add: gain_btc_eth_def)
  have neg: "gain_eth_btc \<le> 0" by (simp add: gain_eth_btc_def)
  have ret: "snd (update stale_indicator spec_tickers) = Inr None"
    by (simp add: stale_update_example)
  have ka: "path_key leg_btc_usd_buy leg_eth_btc_buy leg_eth_usd_sell = ''BTC_USD>ETH_BTC>ETH_USD''"
    by (simp add: path_key_def leg_defs)
  have kb: "path_key leg_eth_usd_buy leg_eth_btc_sell leg_btc_usd_sell = ''ETH_USD>ETH_BTC>BTC_USD''"
    by (simp add: path_key_def leg_eth_usd_buy_def leg_eth_btc_sell_def leg_btc_usd_sell_def)
  have old: "arb_opps stale_indicator ''BTC_USD>ETH_BTC>ETH_USD'' =
      Some (leg_btc_usd_buy, leg_eth_btc_buy, leg_eth_usd_sell, 1)"
    "arb_opps stale_indicator ''ETH_USD>ETH_BTC>BTC_USD'' =
      Some (leg_eth_usd_buy, leg_eth_btc_sell, leg_btc_usd_sell, 2)"
    by (simp_all add: stale_indicator_def)
  have stored: "arb_opps (fst (update stale_indicator spec_tickers)) ''BTC_USD>ETH_BTC>ETH_USD'' =
      Some (leg_btc_usd_buy, leg_eth_btc_buy, leg_eth_usd_sell, gain_btc_eth)"
    using update_stores_positive_triangle [OF codes cs(1) cs(2) cs(3) cs(4) _ a ga,
        of None, THEN conjunct1] pos ret
    by (simp add: ka)
  have kept: "arb_opps (fst (update stale_indicator spec_tickers)) ''ETH_USD>ETH_BTC>BTC_USD'' =
      Some (leg_eth_usd_buy, leg_eth_btc_sell, leg_btc_usd_sell, 2)"
    using update_stores_positive_triangle [OF codes cs(2) cs(1) cs(4) cs(3) _ b gb,
        of None, THEN conjunct2] neg
    by (simp add: kb old)
  have tc: "trading_currencies stale_indicator = [''USD'', ''BTC'', ''ETH'']"
    by (simp add: stale_indicator_def usd_indicator_def init_indicator_def)
  have cc: "currency_code ''USD''" "currency_code ''BTC''" "currency_code ''ETH''"
    by (simp_all add: currency_code_def)
  show ?thesis
    using a b ga gb pos neg ret old stored kept tc cc by (simp add: q)
qed

lemma triangle_gain_value:
  "triangle_gain l1 l2 l3 = Inr g \<Longrightarrow>
   g = dec_sub (dec_mul (calc_rate l2) (calc_rate l3)) (round_ctx (1 / calc_rate l1))"
  by (auto simp: triangle_gain_def dec_div_def Let_def split: if_splits)

lemma record_triangle_consistent:
  "consistent_gains (fst st) \<Longrightarrow> triangle_gain l1 l2 l3 = Inr g \<Longrightarrow>
   consistent_gains (fst (record_triangle l1 l2 l3 g st))"
  by (cases st) (auto simp: record_triangle_def consistent_gains_def gain_consistent_def Let_def)

lemma scan_curr2_consistent:
  "consistent_gains (fst st) \<Longrightarrow> consistent_gains (fst (snd (scan_curr2 calc q c1 l1 cs st)))"
proof (induction cs arbitrary: st)
  case Nil
  then show ?case by simp
next
  case (Cons c2 cs)
  then show ?case
    by (auto simp: record_triangle_consistent split: sum.splits option.splits)
qed

lemma scan_curr1_consistent:
  "consistent_gains (fst st) \<Longrightarrow> consistent_gains (fst (snd (scan_curr1 calc q all cs st)))"
proof (induction cs arbitrary: st)
  case Nil
  then show ?case by simp
next
  case (Cons c1 cs)
  show ?case
  proof (cases "c1 = q")
    case True
    with Cons show ?thesis by simp
  next
    case False
    show ?thesis
    proof (cases "get_pair_and_rate calc c1 q")
      case (Inl e)
      with False Cons.prems show ?thesis by simp
    next
      case (Inr r)
      show ?thesis
      proof (cases r)
        case None
        with Inr False Cons show ?thesis by simp
      next
        case (Some leg1)
        obtain err st' where sc: "scan_curr2 calc q c1 leg1 all st = (err, st')"
          by (cases "scan_curr2 calc q c1 leg1 all st")
        have con: "consistent_gains (fst st')"
          using scan_curr2_consistent [OF Cons.prems, of calc q c1 leg1 all] sc by simp
        show ?thesis
        proof (cases err)
          case None
          with Some Inr False sc Cons.IH [OF con] show ?thesis by simp
        next
          case (Some e)
          with \<open>r = Some leg1\<close> Inr False sc con show ?thesis by simp
        qed
      qed
    qed
  qed
qed

lemma update_consistent:
  "consistent_gains (arb_opps ind) \<Longrightarrow> consistent_gains (arb_opps (fst (update ind tk)))"
proof -
  assume con: "consistent_gains (arb_opps ind)"
  let ?calc = "set_tickers (arb_calculator ind) tk"
  obtain err opps mg mp where sc:
    "scan_curr1 ?calc (quote_curr ind) (trading_currencies ind) (trading_currencies ind)
       (arb_opps ind, 0, []) = (err, (opps, mg, mp))"
    by (metis prod_cases3)
  have "consistent_gains opps"
    using scan_curr1_consistent [of "(arb_opps ind, 0, [])" ?calc "quote_curr ind"
        "trading_currencies ind" "trading_currencies ind"] con sc by simp
  moreover have "arb_opps (fst (update ind tk)) = opps"
    using sc by (auto simp: update_def Let_def split: option.splits)
  ultimately show ?thesis by simp
qed

lemma run_updates_consistent:
  "consistent_gains (arb_opps ind) \<Longrightarrow> consistent_gains (arb_opps (run_updates ind tks))"
  by (induction tks arbitrary: ind) (auto simp: update_consistent)

lemma weighted_rates_example:
  "get_weighted_rate exmo_fees 100
     \<lparr>ask = [(10010, 1 / 200, 1001 / 20), (10020, 1 / 2, 5010)], bid = []\<rparr> BUY =
     Inr (622816242514970059880239523 / 6250000000000000000000000000000, 49925149700598802395209581 / 5000000000000000000000000000)"
  "get_weighted_rate exmo_fees (49925149700598802395209581 / 5000000000000000000000000000)
     \<lparr>ask = [(501 / 10000, 20, 501 / 500)], bid = []\<rparr> BUY =
     Inr (124500998003992015968063873 / 6250000000000000000000000, 19930199481276967024035761 / 100000000000000000000000000)"
  "get_weighted_rate exmo_fees (19930199481276967024035761 / 100000000000000000000000000)
     \<lparr>ask = [], bid = [(505, 30, 15150)]\<rparr> SELL =
     Inr (2519949999999999999999999923 / 5000000000000000000000000, 10064750738044868347138059 / 100000000000000000000000)"
  by (simp_all add: get_weighted_rate_def book_totals_def exmo_fees_def Let_def
      dec_defs rt rl rb rn rs)

text \<open>
  Claim C1. The gain that \<^verbatim>\<open>update\<close> computes for a triangle is
  \<^verbatim>\<open>leg2.calc_rate * leg3.calc_rate - 1 / leg1.calc_rate\<close> whenever the first leg has a
  positive \<^verbatim>\<open>calc_rate\<close>, and every entry that a sequence of \<^verbatim>\<open>update\<close> calls leaves in
  the cache carries this gain of its three legs. Likewise the gain of the slippage
  recomputation is the same expression of the three weighted rates, which
  \<^verbatim>\<open>_recalc_gain_with_slippage\<close> returns together with the gain amount. The operations are
  those of the decimal context, and the division cannot raise.
\<close>

theorem gain_identity:
  "(0 < calc_rate leg1 \<longrightarrow>
      triangle_gain leg1 leg2 leg3 =
        Inr (dec_sub (dec_mul (calc_rate leg2) (calc_rate leg3)) (round_ctx (1 / calc_rate leg1)))) \<and>
   (arb_opps ind = Map.empty \<and> arb_opps (run_updates ind tks) p = Some (l1, l2, l3, g) \<longrightarrow>
      g = dec_sub (dec_mul (calc_rate l2) (calc_rate l3)) (round_ctx (1 / calc_rate l1))) \<and>
   (0 < w1 \<longrightarrow>
      slippage_gain w1 w2 w3 = Inr (dec_sub (dec_mul w2 w3) (round_ctx (1 / w1)))) \<and>
   (order_book (pair pair1) = Some b1 \<and> order_book (pair pair2) = Some b2 \<and>
    order_book (pair pair3) = Some b3 \<and>
    get_weighted_rate fs trading_amount b1 (side pair1) = Inr (w1, a1) \<and>
    get_weighted_rate fs a1 b2 (side pair2) = Inr (w2, a2) \<and>
    get_weighted_rate fs a2 b3 (side pair3) = Inr (w3, a3) \<and> 0 < w1 \<longrightarrow>
      recalc_gain_with_slippage fs order_book pair1 pair2 pair3 trading_amount =
        Inr (dec_sub (dec_mul w2 w3) (round_ctx (1 / w1)), dec_sub a3 trading_amount))"
proof -
  have stored: "g = dec_sub (dec_mul (calc_rate l2) (calc_rate l3)) (round_ctx (1 / calc_rate l1))"
    if e: "arb_opps ind = Map.empty"
      and entry: "arb_opps (run_updates ind tks) p = Some (l1, l2, l3, g)"
  proof -
    have "consistent_gains (arb_opps ind)"
      by (simp add: e consistent_gains_def)
    then have "consistent_gains (arb_opps (run_updates ind tks))"
      by (rule run_updates_consistent)
    with entry have "triangle_gain l1 l2 l3 = Inr g"
      unfolding consistent_gains_def gain_consistent_def by fastforce
    then show ?thesis by (rule triangle_gain_value)
  qed
  show ?thesis
    using stored
    by (auto simp: triangle_gain_def slippage_gain_def recalc_gain_with_slippage_def dec_div_def
        Let_def)
qed

theorem gain_identity_witness:
  "0 < calc_rate leg_btc_usd_buy \<and>
   triangle_gain leg_btc_usd_buy leg_eth_btc_buy leg_eth_usd_sell = Inr gain_btc_eth \<and>
   arb_opps usd_indicator = Map.empty \<and>
   arb_opps (run_updates usd_indicator [spec_tickers]) ''BTC_USD>ETH_BTC>ETH_USD'' =
     Some (leg_btc_usd_buy, leg_eth_btc_buy, leg_eth_usd_sell, gain_btc_eth) \<and>
   gain_btc_eth =
     dec_sub (dec_mul (calc_rate leg_eth_btc_buy) (calc_rate leg_eth_usd_sell))
       (round_ctx (1 / calc_rate leg_btc_usd_buy)) \<and>
   (0 :: rat) < 622816242514970059880239523 / 6250000000000000000000000000000 \<and>
   slippage_gain (622816242514970059880239523 / 6250000000000000000000000000000) (124500998003992015968063873 / 6250000000000000000000000) (2519949999999999999999999923 / 5000000000000000000000000) = Inr (28116552743572293629503 / 6250000000000000000000) \<and>
   recalc_gain_with_slippage exmo_fees example_books leg_btc_usd_buy leg_eth_btc_buy
     leg_eth_usd_sell 100 = Inr (28116552743572293629503 / 6250000000000000000000, 64750738044868347138059 / 100000000000000000000000)"
proof -
  define ind where "ind = usd_indicator"
  define p where "p = ''BTC_USD>ETH_BTC>ETH_USD''"
  have e: "arb_opps ind = Map.empty"
    by (simp add: ind_def usd_indicator_def init_indicator_def)
  have entry: "arb_opps (run_updates ind [spec_tickers]) p =
      Some (leg_btc_usd_buy, leg_eth_btc_buy, leg_eth_usd_sell, gain_btc_eth)"
    by (simp add: ind_def p_def update_example)
  have pos: "0 < calc_rate leg_btc_usd_buy"
    by (simp add: leg_defs)
  have books:
    "example_books (pair leg_btc_usd_buy) =
       Some \<lparr>ask = [(10010, 1 / 200, 1001 / 20), (10020, 1 / 2, 5010)], bid = []\<rparr>"
    "example_books (pair leg_eth_btc_buy) = Some \<lparr>ask = [(501 / 10000, 20, 501 / 500)], bid = []\<rparr>"
    "example_books (pair leg_eth_usd_sell) = Some \<lparr>ask = [], bid = [(505, 30, 15150)]\<rparr>"
    by (simp_all add: example_books_def leg_defs)
  have sides: "side leg_btc_usd_buy = BUY" "side leg_eth_btc_buy = BUY"
    "side leg_eth_usd_sell = SELL"
    by (simp_all add: leg_defs)
  have w: "(0 :: rat) < 622816242514970059880239523 / 6250000000000000000000000000000"
    by simp
  note inst = gain_identity [where ?leg1.0 = leg_btc_usd_buy and ?leg2.0 = leg_eth_btc_buy
      and ?leg3.0 = leg_eth_usd_sell and ind = ind and tks = "[spec_tickers]" and p = p
      and ?l1.0 = leg_btc_usd_buy and ?l2.0 = leg_eth_btc_buy and ?l3.0 = leg_eth_usd_sell
      and g = gain_btc_eth
      and ?w1.0 = "622816242514970059880239523 / 6250000000000000000000000000000" and ?w2.0 = "124500998003992015968063873 / 6250000000000000000000000" and ?w3.0 = "2519949999999999999999999923 / 5000000000000000000000000"
      and order_book = example_books and ?pair1.0 = leg_btc_usd_buy
      and ?pair2.0 = leg_eth_btc_buy and ?pair3.0 = leg_eth_usd_sell
      and ?b1.0 = "\<lparr>ask = [(10010, 1 / 200, 1001 / 20), (10020, 1 / 2, 5010)], bid = []\<rparr>"
      and ?b2.0 = "\<lparr>ask = [(501 / 10000, 20, 501 / 500)], bid = []\<rparr>"
      and ?b3.0 = "\<lparr>ask = [], bid = [(505, 30, 15150)]\<rparr>"
      and fs = exmo_fees and trading_amount = 100
      and ?a1.0 = "49925149700598802395209581 / 5000000000000000000000000000" and ?a2.0 = "19930199481276967024035761 / 100000000000000000000000000" and ?a3.0 = "10064750738044868347138059 / 100000000000000000000000"]
  have t: "triangle_gain leg_btc_usd_buy leg_eth_btc_buy leg_eth_usd_sell =
      Inr (dec_sub (dec_mul (calc_rate leg_eth_btc_buy) (calc_rate leg_eth_usd_sell))
        (round_ctx (1 / calc_rate leg_btc_usd_buy)))"
    using inst [THEN conjunct1] pos by (rule mp)
  have c: "gain_btc_eth =
      dec_sub (dec_mul (calc_rate leg_eth_btc_buy) (calc_rate leg_eth_usd_sell))
        (round_ctx (1 / calc_rate leg_btc_usd_buy))"
    using inst [THEN conjunct2, THEN conjunct1] e entry by blast
  have sg: "slippage_gain (622816242514970059880239523 / 6250000000000000000000000000000) (124500998003992015968063873 / 6250000000000000000000000) (2519949999999999999999999923 / 5000000000000000000000000) =
      Inr (dec_sub (dec_mul (124500998003992015968063873 / 6250000000000000000000000) (2519949999999999999999999923 / 5000000000000000000000000)) (round_ctx (1 / (622816242514970059880239523 / 6250000000000000000000000000000))))"
    using inst [THEN conjunct2, THEN conjunct2, THEN conjunct1] w by (rule mp)
  have rg: "recalc_gain_with_slippage exmo_fees example_books leg_btc_usd_buy leg_eth_btc_buy
      leg_eth_usd_sell 100 =
      Inr (dec_sub (dec_mul (124500998003992015968063873 / 6250000000000000000000000) (2519949999999999999999999923 / 5000000000000000000000000)) (round_ctx (1 / (622816242514970059880239523 / 6250000000000000000000000000000))), dec_sub (10064750738044868347138059 / 100000000000000000000000) 100)"
    using inst [THEN conjunct2, THEN conjunct2, THEN conjunct2] books sides
      weighted_rates_example w
    by simp
  have v: "dec_sub (dec_mul (124500998003992015968063873 / 6250000000000000000000000) (2519949999999999999999999923 / 5000000000000000000000000)) (round_ctx (1 / (622816242514970059880239523 / 6250000000000000000000000000000))) = 28116552743572293629503 / 6250000000000000000000"
    "dec_sub (10064750738044868347138059 / 100000000000000000000000) 100 = 64750738044868347138059 / 100000000000000000000000"
    by (simp_all add: dec_defs rt rl rb rn rs)
  show ?thesis
    using pos t c sg rg v e entry by (simp add: ind_def p_def)
qed

section \<open>Properties of the trader\<close>

lemma start_example:
  "start_arb_loop idle_trader quiet_exchange leg_btc_usd_buy leg_eth_btc_buy leg_eth_usd_sell
     7 5 0 = (None, busy_trader, busy_exchange)"
  by (simp add: start_arb_loop_def trader_place_order_def handle_order_update_def place_order_def
      idle_trader_def init_trader_def quiet_exchange_def busy_exchange_def busy_trader_def
      leg_btc_usd_buy_def Let_def)

text \<open>
  Claim C7. \<^verbatim>\<open>start_arb_loop\<close> called while a loop is in progress (a current order exists) or
  while the trader is in paper-trading mode is a no-op: the call returns without an
  exception, every field of the trader is unchanged, and no order is submitted to the
  exchange.
\<close>

theorem start_arb_loop_noop:
  "paper_trading t \<or> is_loop_in_progress t \<Longrightarrow>
   start_arb_loop t ex pair1 pair2 pair3 opp_id trading_amount now = (None, t, ex)"
  by (auto simp: start_arb_loop_def is_loop_in_progress_def)

theorem start_arb_loop_noop_witness:
  "is_loop_in_progress busy_trader \<and>
   start_arb_loop busy_trader busy_exchange leg_eth_usd_buy leg_eth_btc_sell leg_btc_usd_sell
     8 5 1 = (None, busy_trader, busy_exchange) \<and>
   placed busy_exchange = [(''BTC_USD'', 5, 0, ''market_buy_total'')] \<and>
   paper_trading paper_trader \<and>
   start_arb_loop paper_trader quiet_exchange leg_btc_usd_buy leg_eth_btc_buy leg_eth_usd_sell
     7 5 0 = (None, paper_trader, quiet_exchange)"
proof -
  have b: "is_loop_in_progress busy_trader"
    by (simp add: is_loop_in_progress_def busy_trader_def)
  have p: "paper_trading paper_trader"
    by (simp add: paper_trader_def init_trader_def)
  show ?thesis
    using start_arb_loop_noop [of busy_trader busy_exchange leg_eth_usd_buy leg_eth_btc_sell
        leg_btc_usd_sell 8 5 1]
      start_arb_loop_noop [of paper_trader quiet_exchange leg_btc_usd_buy leg_eth_btc_buy
        leg_eth_usd_sell 7 5 0] b p
    by (simp add: busy_exchange_def quiet_exchange_def)
qed


text \<open>
  An order that is listed under the current pair remains open: \<^verbatim>\<open>update\<close> asks for the open
  orders once and changes nothing.
\<close>

lemma open_order_remains:
  assumes "\<not> paper_trading t"
    and "current_order t = Some ord"
    and "exch_order_id ord \<noteq> - 1"
    and "status ord \<noteq> COMPLETED"
    and "current_pair t = Some p"
    and "user_open_orders ex = Inr open_orders"
    and "map_of open_orders (pair p) = Some ids"
    and "exch_order_id ord \<in> set ids"
  shows "trader_update t ex now = (None, t, ex\<lparr>queries := queries ex @ [OpenOrdersQuery]\<rparr>)"
proof -
  from assms(7) have "open_orders \<noteq> []" by auto
  with assms show ?thesis
    by (simp add: trader_update_def update_current_order_status_def get_user_open_orders_def
        remains_open_def)
qed



section \<open>The rates of a buy leg\<close>

text \<open>
  Claim C2. When the direct pair is in the snapshot, the market calculator prices the buy
  leg against \<^verbatim>\<open>sell_price\<close> and the limit calculator against
  \<^verbatim>\<open>buy_price * (1 + offset)\<close>. With \<^verbatim>\<open>buy_price = 10000\<close>, \<^verbatim>\<open>sell_price = 10010\<close>, a fee of
  0.002 and an offset of 0.0005 the market leg has \<^verbatim>\<open>order_rate = 10010\<close> and
  \<^verbatim>\<open>calc_rate = 0.998 / 10010\<close>, the decimal quotient
  0.00009970029970029970029970029970, and the limit leg has \<^verbatim>\<open>order_rate = 10005\<close>.
\<close>

theorem buy_leg_rates:
  assumes "tk (pair_name a b) = Some t"
  shows "(sell_price t \<noteq> 0 \<longrightarrow>
            get_pair_and_rate (MarketOrderArbCalculator f tk) a b =
              Inr (Some \<lparr>pair = pair_name a b,
                         calc_rate = round_ctx (dec_sub 1 f / sell_price t),
                         order_rate = sell_price t, side = BUY\<rparr>)) \<and>
         (buy_price t \<noteq> 0 \<and> dec_add 1 off \<noteq> 0 \<longrightarrow>
            get_pair_and_rate (LimitOrderArbCalculator f off tk) a b =
              Inr (Some \<lparr>pair = pair_name a b,
                         calc_rate = round_ctx (round_ctx (dec_sub 1 f / buy_price t) / dec_add 1 off),
                         order_rate = dec_mul (buy_price t) (dec_add 1 off), side = BUY\<rparr>)) \<and>
         (buy_price t = 10000 \<and> sell_price t = 10010 \<longrightarrow>
            get_pair_and_rate (MarketOrderArbCalculator (1 / 500) tk) a b =
              Inr (Some \<lparr>pair = pair_name a b, calc_rate = 997002997002997002997002997 / 10000000000000000000000000000000,
                         order_rate = 10010, side = BUY\<rparr>) \<and>
            dec_div (499 / 500) 10010 = Inr (997002997002997002997002997 / 10000000000000000000000000000000) \<and>
            get_pair_and_rate (LimitOrderArbCalculator (1 / 500) (1 / 2000) tk) a b =
              Inr (Some \<lparr>pair = pair_name a b, calc_rate = 997501249375312343828085957 / 10000000000000000000000000000000,
                         order_rate = 10005, side = BUY\<rparr>) \<and>
            dec_mul 10000 (dec_add 1 (1 / 2000)) = 10005)"
  using assms by (simp add: Let_def dec_defs rt rl)

theorem buy_leg_rates_witness:
  "spec_tickers (pair_name ''BTC'' ''USD'') = Some (quote_of 10000 10010) \<and>
   buy_price (quote_of 10000 10010) = 10000 \<and> sell_price (quote_of 10000 10010) = 10010 \<and>
   get_pair_and_rate (MarketOrderArbCalculator (1 / 500) spec_tickers) ''BTC'' ''USD'' =
     Inr (Some \<lparr>pair = ''BTC_USD'', calc_rate = 997002997002997002997002997 / 10000000000000000000000000000000,
                order_rate = 10010, side = BUY\<rparr>) \<and>
   get_pair_and_rate (LimitOrderArbCalculator (1 / 500) (1 / 2000) spec_tickers) ''BTC'' ''USD'' =
     Inr (Some \<lparr>pair = ''BTC_USD'', calc_rate = 997501249375312343828085957 / 10000000000000000000000000000000,
                order_rate = 10005, side = BUY\<rparr>)"
proof -
  have t: "spec_tickers (pair_name ''BTC'' ''USD'') = Some (quote_of 10000 10010)"
    by (simp add: spec_tickers_def pair_name_def)
  have p: "buy_price (quote_of 10000 10010) = 10000" "sell_price (quote_of 10000 10010) = 10010"
    by (simp_all add: quote_of_def)
  have n: "pair_name ''BTC'' ''USD'' = ''BTC_USD''" by (simp add: pair_name_def)
  have c: "get_pair_and_rate (MarketOrderArbCalculator (1 / 500) spec_tickers) ''BTC'' ''USD'' =
        Inr (Some \<lparr>pair = pair_name ''BTC'' ''USD'', calc_rate = 997002997002997002997002997 / 10000000000000000000000000000000,
                   order_rate = 10010, side = BUY\<rparr>) \<and>
      dec_div (499 / 500) 10010 = Inr (997002997002997002997002997 / 10000000000000000000000000000000) \<and>
      get_pair_and_rate (LimitOrderArbCalculator (1 / 500) (1 / 2000) spec_tickers) ''BTC'' ''USD'' =
        Inr (Some \<lparr>pair = pair_name ''BTC'' ''USD'', calc_rate = 997501249375312343828085957 / 10000000000000000000000000000000,
                   order_rate = 10005, side = BUY\<rparr>) \<and>
      dec_mul 10000 (dec_add 1 (1 / 2000)) = 10005"
    by (rule buy_leg_rates [where tk = spec_tickers and a = "''BTC''" and b = "''USD''"
          and t = "quote_of 10000 10010" and f = "1 / 500" and off = "1 / 2000", OF t,
          THEN conjunct2, THEN conjunct2, rule_format])
      (simp add: p)
  show ?thesis using c t p unfolding n by blast
qed

section \<open>Properties of the slippage estimate\<close>

lemma dec_div_error: "dec_div x y = Inl e \<Longrightarrow> e = DivisionByZero \<or> e = InvalidOperation"
  by (auto simp: dec_div_def split: if_splits)

lemma dec_add_fixed: "round_ctx (dec_add x y) = dec_add x y"
  by (simp add: dec_add_def round_ctx_idem)

lemma dec_add_increasing: "round_ctx acc = acc \<Longrightarrow> 0 \<le> x \<Longrightarrow> acc \<le> dec_add acc x"
proof -
  assume f: "round_ctx acc = acc" and x: "0 \<le> x"
  have "round_ctx acc \<le> round_ctx (acc + x)" by (rule round_ctx_mono) (use x in simp)
  then show ?thesis by (simp add: dec_add_def f)
qed

lemma dec_sum_increasing:
  "\<forall>x\<in>set xs. 0 \<le> x \<Longrightarrow> round_ctx acc = acc \<Longrightarrow> acc \<le> dec_sum xs acc"
proof (induction xs arbitrary: acc)
  case Nil
  then show ?case by simp
next
  case (Cons x xs)
  have "acc \<le> dec_add acc x" using Cons.prems by (simp add: dec_add_increasing)
  also have "\<dots> \<le> dec_sum xs (dec_add acc x)"
    using Cons.prems by (intro Cons.IH) (simp_all add: dec_add_fixed)
  finally show ?case by simp
qed

lemma walk_asks_short:
  assumes "\<forall>lv\<in>set lvls. 0 \<le> level_amount lv" and "round_ctx a0 = a0"
  shows "fst (snd (walk_asks T lvls (q0, a0, r0))) < T \<longleftrightarrow>
           dec_sum (map level_amount lvls) a0 < T"
  using assms
proof (induction lvls arbitrary: q0 a0 r0)
  case Nil
  then show ?case by simp
next
  case (Cons lv lvls)
  obtain p q a where lv: "lv = (p, q, a)" by (cases lv)
  have la: "level_amount (p, q, a) = a" by (simp add: level_amount_def)
  have a: "0 \<le> a" using Cons.prems(1) by (simp add: lv la)
  have rest: "\<forall>lv\<in>set lvls. 0 \<le> level_amount lv" using Cons.prems(1) by simp
  show ?case
  proof (cases "T \<le> dec_add a0 a")
    case True
    have "dec_add a0 a \<le> dec_sum (map level_amount lvls) (dec_add a0 a)"
      using rest by (intro dec_sum_increasing) (simp_all add: dec_add_fixed)
    with True show ?thesis by (simp add: lv la Let_def)
  next
    case False
    then show ?thesis
      using Cons.IH [OF rest dec_add_fixed, of "dec_add q0 q" a0 a p]
      by (simp add: lv la Let_def)
  qed
qed

lemma walk_bids_short:
  assumes "\<forall>lv\<in>set lvls. 0 \<le> level_quantity lv" and "round_ctx q0 = q0"
  shows "fst (walk_bids T lvls (q0, a0, r0)) < T \<longleftrightarrow>
           dec_sum (map level_quantity lvls) q0 < T"
  using assms
proof (induction lvls arbitrary: q0 a0 r0)
  case Nil
  then show ?case by simp
next
  case (Cons lv lvls)
  obtain p q a where lv: "lv = (p, q, a)" by (cases lv)
  have lq: "level_quantity (p, q, a) = q" by (simp add: level_quantity_def)
  have q: "0 \<le> q" using Cons.prems(1) by (simp add: lv lq)
  have rest: "\<forall>lv\<in>set lvls. 0 \<le> level_quantity lv" using Cons.prems(1) by simp
  show ?case
  proof (cases "T \<le> dec_add q0 q")
    case True
    have "dec_add q0 q \<le> dec_sum (map level_quantity lvls) (dec_add q0 q)"
      using rest by (intro dec_sum_increasing) (simp_all add: dec_add_fixed)
    with True show ?thesis by (simp add: lv lq Let_def)
  next
    case False
    then show ?thesis
      using Cons.IH [OF rest dec_add_fixed, of q0 q "dec_add a0 a" p]
      by (simp add: lv lq Let_def)
  qed
qed

lemma walk_asks_exhausted:
  "fst (snd (walk_asks T lvls (q0, a0, r0))) < T \<longleftrightarrow>
     exhausted_before_target T (map level_amount lvls) a0"
proof (induction lvls arbitrary: q0 a0 r0)
  case Nil
  then show ?case by simp
next
  case (Cons lv lvls)
  obtain p q a where lv: "lv = (p, q, a)" by (cases lv)
  have la: "level_amount (p, q, a) = a" by (simp add: level_amount_def)
  show ?case
    using Cons.IH [of "dec_add q0 q" "dec_add a0 a" p]
    by (simp add: lv la Let_def not_le [symmetric])
qed

lemma walk_bids_exhausted:
  "fst (walk_bids T lvls (q0, a0, r0)) < T \<longleftrightarrow>
     exhausted_before_target T (map level_quantity lvls) q0"
proof (induction lvls arbitrary: q0 a0 r0)
  case Nil
  then show ?case by simp
next
  case (Cons lv lvls)
  obtain p q a where lv: "lv = (p, q, a)" by (cases lv)
  have lq: "level_quantity (p, q, a) = q" by (simp add: level_quantity_def)
  show ?case
    using Cons.IH [of "dec_add q0 q" "dec_add a0 a" p]
    by (simp add: lv lq Let_def not_le [symmetric])
qed

lemma depth_failure_buy:
  "is_not_enough_depth (get_weighted_rate fs T book BUY) \<longleftrightarrow>
     fst (snd (walk_asks T (ask book) (0, 0, 0))) < T"
proof -
  obtain q a r where w: "walk_asks T (ask book) (0, 0, 0) = (q, a, r)" by (metis prod_cases3)
  show ?thesis
    by (auto simp: get_weighted_rate_def book_totals_def w is_not_enough_depth_def Let_def
        split: sum.splits error.splits if_splits dest: dec_div_error)
qed

lemma depth_failure_sell:
  "is_not_enough_depth (get_weighted_rate fs T book SELL) \<longleftrightarrow>
     fst (walk_bids T (bid book) (0, 0, 0)) < T"
proof -
  obtain q a r where w: "walk_bids T (bid book) (0, 0, 0) = (q, a, r)" by (metis prod_cases3)
  show ?thesis
    by (auto simp: get_weighted_rate_def book_totals_def w is_not_enough_depth_def Let_def
        split: sum.splits error.splits if_splits dest: dec_div_error)
qed

text \<open>
  Claim C5. The weighted-rate computation raises the depth failure if and only if the
  ladder is exhausted before the target is reached, that is, if the running total stays
  below the target through all levels. For a ladder whose level amounts (on a buy leg) or
  level quantities (on a sell leg) are not negative this is the case exactly when the sum of
  all level amounts is strictly less than the amount to spend, on a sell leg when the sum of
  all level quantities is strictly less than the quantity to sell. The sums are the running
  decimal sums of the loop.
\<close>

theorem depth_failure_iff:
  "(is_not_enough_depth (get_weighted_rate fs amount_to_sell book BUY) \<longleftrightarrow>
      exhausted_before_target amount_to_sell (map level_amount (ask book)) 0) \<and>
   (is_not_enough_depth (get_weighted_rate fs amount_to_sell book SELL) \<longleftrightarrow>
      exhausted_before_target amount_to_sell (map level_quantity (bid book)) 0) \<and>
   ((\<forall>lv\<in>set (ask book). 0 \<le> level_amount lv) \<longrightarrow>
      (is_not_enough_depth (get_weighted_rate fs amount_to_sell book BUY) \<longleftrightarrow>
         dec_sum (map level_amount (ask book)) 0 < amount_to_sell)) \<and>
   ((\<forall>lv\<in>set (bid book). 0 \<le> level_quantity lv) \<longrightarrow>
      (is_not_enough_depth (get_weighted_rate fs amount_to_sell book SELL) \<longleftrightarrow>
         dec_sum (map level_quantity (bid book)) 0 < amount_to_sell))"
  using walk_asks_short [of "ask book" 0 amount_to_sell 0 0]
    walk_bids_short [of "bid book" 0 amount_to_sell 0 0]
    walk_asks_exhausted [of amount_to_sell "ask book" 0 0 0]
    walk_bids_exhausted [of amount_to_sell "bid book" 0 0 0]
  by (simp add: depth_failure_buy depth_failure_sell round_ctx_zero)

theorem depth_failure_iff_witness:
  "map level_amount (ask example_book) = [50, 66] \<and>
   dec_sum (map level_amount (ask example_book)) 0 = 116 \<and>
   is_not_enough_depth (get_weighted_rate exmo_fees 200 example_book BUY) \<and>
   \<not> is_not_enough_depth (get_weighted_rate exmo_fees 100 example_book BUY) \<and>
   map level_quantity (bid example_book) = [5, 6] \<and>
   dec_sum (map level_quantity (bid example_book)) 0 = 11 \<and>
   is_not_enough_depth (get_weighted_rate exmo_fees 12 example_book SELL) \<and>
   \<not> is_not_enough_depth (get_weighted_rate exmo_fees 8 example_book SELL)"
proof -
  have ma: "map level_amount (ask example_book) = [50, 66]"
    by (simp add: example_book_def level_amount_def)
  have mq: "map level_quantity (bid example_book) = [5, 6]"
    by (simp add: example_book_def level_quantity_def)
  have na: "\<forall>lv\<in>set (ask example_book). 0 \<le> level_amount lv"
    by (simp add: example_book_def level_amount_def)
  have nq: "\<forall>lv\<in>set (bid example_book). 0 \<le> level_quantity lv"
    by (simp add: example_book_def level_quantity_def)
  have sa: "dec_sum (map level_amount (ask example_book)) 0 = 116"
    by (simp add: example_book_def level_amount_def dec_add_def rb)
  have sq: "dec_sum (map level_quantity (bid example_book)) 0 = 11"
    by (simp add: example_book_def level_quantity_def dec_add_def rb)
  have "is_not_enough_depth (get_weighted_rate exmo_fees 200 example_book BUY)"
    using depth_failure_iff [of exmo_fees 200 example_book, THEN conjunct2, THEN conjunct2,
        THEN conjunct1, THEN mp, OF na]
    by (simp add: sa)
  moreover have "\<not> is_not_enough_depth (get_weighted_rate exmo_fees 100 example_book BUY)"
    using depth_failure_iff [of exmo_fees 100 example_book, THEN conjunct2, THEN conjunct2,
        THEN conjunct1, THEN mp, OF na]
    by (simp add: sa)
  moreover have "is_not_enough_depth (get_weighted_rate exmo_fees 12 example_book SELL)"
    using depth_failure_iff [of exmo_fees 12 example_book, THEN conjunct2, THEN conjunct2,
        THEN conjunct2, THEN mp, OF nq]
    by (simp add: sq)
  moreover have "\<not> is_not_enough_depth (get_weighted_rate exmo_fees 8 example_book SELL)"
    using depth_failure_iff [of exmo_fees 8 example_book, THEN conjunct2, THEN conjunct2,
        THEN conjunct2, THEN mp, OF nq]
    by (simp add: sq)
  ultimately show ?thesis using ma mq sa sq by blast
qed

lemma walk_asks_example: "walk_asks 100 (ask example_book) (0, 0, 0) = (11, 116, 11)"
  by (simp add: example_book_def dec_add_def rb)

lemma walk_bids_example: "walk_bids 8 (bid example_book) (0, 0, 0) = (11, 104, 9)"
  by (simp add: example_book_def dec_add_def rb)

text \<open>
  Claim C6. When the accumulated levels overshoot the target, the contribution of the last
  consumed level is trimmed at that level's price, so that the accumulated total equals the
  requested amount: on a buy leg the quantity is reduced by the overshoot of the amount
  divided by the last price and the amount becomes the target, on a sell leg the amount is
  reduced by the overshoot of the quantity times the last price and the quantity becomes
  the target. For a buy leg with target 100 and the asks \<^verbatim>\<open>[[10,5,50],[11,6,66]]\<close> the loop
  accumulates the amount 116, the trimmed totals are the amount 100 and the quantity
  5 + 50/11 (the last level gives 50 of its 66), and the weighted rate is computed from the
  trimmed totals. The divisions are those of the decimal context.
\<close>

theorem overshoot_trimmed:
  "(walk_asks T (ask book) (0, 0, 0) = (q, a, r) \<and> T < a \<and> r \<noteq> 0 \<longrightarrow>
      book_totals T book BUY = Inr (dec_sub q (round_ctx (dec_sub a T / r)), T)) \<and>
   (walk_bids T (bid book) (0, 0, 0) = (q, a, r) \<and> T < q \<longrightarrow>
      book_totals T book SELL = Inr (T, dec_sub a (dec_mul (dec_sub q T) r))) \<and>
   (book_totals T book BUY = Inr (q', a') \<longrightarrow> a' = T) \<and>
   (book_totals T book SELL = Inr (q', a') \<longrightarrow> q' = T) \<and>
   walk_asks 100 (ask example_book) (0, 0, 0) = (11, 116, 11) \<and>
   book_totals 100 example_book BUY = Inr (5 + round_ctx (50 / 11), 100) \<and>
   5 + round_ctx (50 / 11) = (1909090909090909090909090909 / 200000000000000000000000000 :: rat) \<and>
   get_weighted_rate exmo_fees 100 example_book BUY = Inr (2381590909090909090909090909 / 25000000000000000000000000000, 1909090909090909090909090909 / 200000000000000000000000000)"
proof -
  have 1: "walk_asks T (ask book) (0, 0, 0) = (q, a, r) \<and> T < a \<and> r \<noteq> 0 \<longrightarrow>
      book_totals T book BUY = Inr (dec_sub q (round_ctx (dec_sub a T / r)), T)"
    by (simp add: book_totals_def dec_div_def)
  have 2: "walk_bids T (bid book) (0, 0, 0) = (q, a, r) \<and> T < q \<longrightarrow>
      book_totals T book SELL = Inr (T, dec_sub a (dec_mul (dec_sub q T) r))"
    by (simp add: book_totals_def)
  have 3: "book_totals T book BUY = Inr (q', a') \<longrightarrow> a' = T"
    by (auto simp: book_totals_def split: prod.splits if_splits sum.splits)
  have 4: "book_totals T book SELL = Inr (q', a') \<longrightarrow> q' = T"
    by (auto simp: book_totals_def split: prod.splits if_splits sum.splits)
  have 5: "book_totals 100 example_book BUY = Inr (5 + round_ctx (50 / 11), 100)"
    by (simp add: book_totals_def walk_asks_example dec_defs rb)
  have 6: "5 + round_ctx (50 / 11) = (1909090909090909090909090909 / 200000000000000000000000000 :: rat)"
    by (simp add: rb)
  have 7: "get_weighted_rate exmo_fees 100 example_book BUY = Inr (2381590909090909090909090909 / 25000000000000000000000000000, 1909090909090909090909090909 / 200000000000000000000000000)"
    by (simp add: get_weighted_rate_def 5 6 exmo_fees_def dec_defs rt rb)
  from 1 2 3 4 5 6 7 walk_asks_example show ?thesis by blast
qed

theorem overshoot_trimmed_witness:
  "walk_asks 100 (ask example_book) (0, 0, 0) = (11, 116, 11) \<and> (100 :: rat) < 116 \<and>
   (11 :: rat) \<noteq> 0 \<and>
   book_totals 100 example_book BUY = Inr (1909090909090909090909090909 / 200000000000000000000000000, 100) \<and>
   walk_bids 8 (bid example_book) (0, 0, 0) = (11, 104, 9) \<and> (8 :: rat) < 11 \<and>
   book_totals 8 example_book SELL = Inr (8, 77)"
proof -
  have b: "book_totals 100 example_book BUY =
      Inr (dec_sub 11 (round_ctx (dec_sub 116 100 / 11)), 100)"
    by (rule overshoot_trimmed [of 100 example_book 11 116 11, THEN conjunct1, rule_format])
      (simp add: walk_asks_example)
  have s: "book_totals 8 example_book SELL = Inr (8, dec_sub 104 (dec_mul (dec_sub 11 8) 9))"
    by (rule overshoot_trimmed [of 8 example_book 11 104 9, THEN conjunct2, THEN conjunct1,
          rule_format])
      (simp add: walk_bids_example)
  have "book_totals 100 example_book BUY = Inr (1909090909090909090909090909 / 200000000000000000000000000, 100)"
    by (simp add: b dec_defs rb)
  moreover have "book_totals 8 example_book SELL = Inr (8, 77)"
    by (simp add: s dec_defs rb)
  ultimately show ?thesis using walk_asks_example walk_bids_example by simp
qed

section \<open>The normalization of the rates\<close>

lemma round_half_even_error: "\<bar>of_int (round_half_even y) - y\<bar> \<le> 1 / 2"
proof -
  have "of_int \<lfloor>y\<rfloor> \<le> y" "y < of_int \<lfloor>y\<rfloor> + 1" by linarith+
  then show ?thesis by (auto simp: round_half_even_def Let_def)
qed

lemma round_ctx_error_pos:
  assumes "0 < x"
  shows "\<bar>round_ctx x - x\<bar> \<le> unit_roundoff * x"
proof -
  define P where "P = pow10 (adjusted x - 27)"
  define n where "n = round_half_even (x / P)"
  have P: "0 < P" by (simp add: P_def pow10_pos)
  have r: "round_ctx x = of_int n * P"
    by (simp add: round_ctx_pos_eq [OF assms] n_def P_def)
  have lo: "10 ^ 27 \<le> x / P" using scaled_bounds(1) [OF assms] by (simp add: P_def)
  then have Pb: "P * 10 ^ 27 \<le> x" using P by (simp add: pos_le_divide_eq mult.commute)
  have "\<bar>of_int n - x / P\<bar> \<le> 1 / 2" unfolding n_def by (rule round_half_even_error)
  then have "\<bar>of_int n - x / P\<bar> * P \<le> 1 / 2 * P" using P by (simp add: mult_right_mono)
  moreover have "\<bar>of_int n - x / P\<bar> * P = \<bar>of_int n * P - x\<bar>"
  proof -
    have "\<bar>of_int n - x / P\<bar> * P = \<bar>(of_int n - x / P) * P\<bar>" using P by (simp add: abs_mult)
    also have "(of_int n - x / P) * P = of_int n * P - x" using P by (simp add: algebra_simps)
    finally show ?thesis .
  qed
  ultimately have "\<bar>round_ctx x - x\<bar> \<le> P / 2" by (simp add: r)
  also have "\<dots> \<le> unit_roundoff * x" using Pb by (simp add: unit_roundoff_def field_simps)
  finally show ?thesis .
qed

lemma round_ctx_error: "\<bar>round_ctx x - x\<bar> \<le> unit_roundoff * \<bar>x\<bar>"
proof -
  consider "0 < x" | "x = 0" | "x < 0" by linarith
  then show ?thesis
  proof cases
    case 1
    then show ?thesis using round_ctx_error_pos [of x] by simp
  next
    case 2
    then show ?thesis by (simp add: round_ctx_zero)
  next
    case 3
    then have "\<bar>round_ctx (- x) - (- x)\<bar> \<le> unit_roundoff * (- x)"
      by (intro round_ctx_error_pos) simp
    moreover have "\<bar>round_ctx (- x) - (- x)\<bar> = \<bar>round_ctx x - x\<bar>"
      by (simp add: round_ctx_minus abs_minus_commute)
    ultimately show ?thesis using 3 by simp
  qed
qed

lemma round_ctx_factor:
  obtains d where "round_ctx x = x * (1 + d)" and "\<bar>d\<bar> \<le> unit_roundoff"
proof (cases "x = 0")
  case True
  have "round_ctx x = x * (1 + 0)" by (simp add: True round_ctx_zero)
  moreover have "\<bar>0 :: rat\<bar> \<le> unit_roundoff" by (simp add: unit_roundoff_def)
  ultimately show ?thesis by (rule that)
next
  case False
  define d where "d = (round_ctx x - x) / x"
  have 1: "round_ctx x = x * (1 + d)" using False by (simp add: d_def field_simps)
  have "\<bar>d\<bar> = \<bar>round_ctx x - x\<bar> / \<bar>x\<bar>" by (simp add: d_def)
  also have "\<dots> \<le> unit_roundoff"
    using round_ctx_error [of x] False by (simp add: pos_divide_le_eq)
  finally have 2: "\<bar>d\<bar> \<le> unit_roundoff" .
  from 1 2 show ?thesis by (rule that)
qed

lemma two_factors:
  assumes "\<bar>d1 :: rat\<bar> \<le> e" and "\<bar>d2\<bar> \<le> e" and "e \<le> 1 / 4"
  shows "\<bar>(1 + d1) * (1 + d2) - 1\<bar> \<le> 3 * e"
proof -
  have e0: "0 \<le> e" using assms(1) by linarith
  have "\<bar>d1 * d2\<bar> = \<bar>d1\<bar> * \<bar>d2\<bar>" by (rule abs_mult)
  also have "\<dots> \<le> e * e" using assms(1,2) by (intro mult_mono) simp_all
  also have "\<dots> \<le> e * 1" using assms(3) e0 by (intro mult_left_mono) simp_all
  finally have p: "\<bar>d1 * d2\<bar> \<le> e" by simp
  have "(1 + d1) * (1 + d2) - 1 = d1 + d2 + d1 * d2" by (simp add: algebra_simps)
  then show ?thesis using assms(1,2) p by linarith
qed

lemma three_factors:
  assumes "\<bar>d1 :: rat\<bar> \<le> e" and "\<bar>d2\<bar> \<le> e" and "\<bar>d3\<bar> \<le> e" and "e \<le> 1 / 4"
  shows "\<bar>(1 + d1) * (1 + d2) * (1 + d3) - 1\<bar> \<le> 5 * e"
proof -
  have e0: "0 \<le> e" using assms(1) by linarith
  define u where "u = (1 + d1) * (1 + d2) - 1"
  have u: "\<bar>u\<bar> \<le> 3 * e" unfolding u_def using assms(1,2,4) by (rule two_factors)
  have "\<bar>u * d3\<bar> = \<bar>u\<bar> * \<bar>d3\<bar>" by (rule abs_mult)
  also have "\<dots> \<le> (3 * e) * e" using u assms(3) by (intro mult_mono) simp_all
  also have "\<dots> \<le> e" using assms(4) e0
  proof -
    have "e * e \<le> e * (1 / 4)" using assms(4) e0 by (intro mult_left_mono) simp_all
    then show "3 * e * e \<le> e" using e0 by simp
  qed
  finally have p: "\<bar>u * d3\<bar> \<le> e" .
  have "(1 + d1) * (1 + d2) * (1 + d3) - 1 = u + d3 + u * d3"
    by (simp add: u_def algebra_simps)
  then show ?thesis using u assms(3) p by linarith
qed

lemma unit_roundoff_small: "unit_roundoff \<le> 1 / 4" "0 \<le> unit_roundoff"
  by (simp_all add: unit_roundoff_def)

lemma tolerance_covers: "8 * unit_roundoff \<le> tolerance"
  by (simp add: unit_roundoff_def tolerance_def)

lemma market_buy_bound:
  assumes "p \<noteq> 0"
  shows "\<bar>round_ctx (F / p) * p - F\<bar> \<le> tolerance * \<bar>F\<bar>"
proof -
  obtain d where d: "round_ctx (F / p) = F / p * (1 + d)" "\<bar>d\<bar> \<le> unit_roundoff"
    by (rule round_ctx_factor)
  have "round_ctx (F / p) * p - F = F * d" using assms by (simp add: d(1) field_simps)
  then have "\<bar>round_ctx (F / p) * p - F\<bar> = \<bar>F\<bar> * \<bar>d\<bar>" by (simp add: abs_mult)
  also have "\<dots> \<le> \<bar>F\<bar> * tolerance"
    using d(2) tolerance_covers unit_roundoff_small(2) by (intro mult_left_mono) simp_all
  finally show ?thesis by (simp add: mult.commute)
qed

lemma market_sell_bound: "\<bar>round_ctx (F * p) - F * p\<bar> \<le> tolerance * \<bar>F * p\<bar>"
proof -
  have "\<bar>round_ctx (F * p) - F * p\<bar> \<le> unit_roundoff * \<bar>F * p\<bar>" by (rule round_ctx_error)
  also have "\<dots> \<le> tolerance * \<bar>F * p\<bar>"
    using tolerance_covers unit_roundoff_small(2) by (intro mult_right_mono) simp_all
  finally show ?thesis .
qed

lemma limit_buy_bound:
  assumes "bp \<noteq> 0" and "A \<noteq> 0"
  shows "\<bar>round_ctx (round_ctx (F / bp) / A) * round_ctx (bp * A) - F\<bar> \<le> tolerance * \<bar>F\<bar>"
proof -
  define r1 where "r1 = round_ctx (F / bp)"
  obtain d1 where d1: "r1 = F / bp * (1 + d1)" "\<bar>d1\<bar> \<le> unit_roundoff"
    unfolding r1_def by (rule round_ctx_factor)
  obtain d2 where d2: "round_ctx (r1 / A) = r1 / A * (1 + d2)" "\<bar>d2\<bar> \<le> unit_roundoff"
    by (rule round_ctx_factor)
  obtain d3 where d3: "round_ctx (bp * A) = bp * A * (1 + d3)" "\<bar>d3\<bar> \<le> unit_roundoff"
    by (rule round_ctx_factor)
  have "round_ctx (r1 / A) * round_ctx (bp * A) = r1 / A * (1 + d2) * (bp * A * (1 + d3))"
    by (simp only: d2(1) d3(1))
  also have "\<dots> = F / bp * (1 + d1) / A * (1 + d2) * (bp * A * (1 + d3))"
    by (simp only: d1(1))
  also have "\<dots> = F * ((1 + d1) * (1 + d2) * (1 + d3))"
    using assms by (simp add: field_simps)
  finally have "round_ctx (r1 / A) * round_ctx (bp * A) - F =
      F * ((1 + d1) * (1 + d2) * (1 + d3) - 1)"
    by (simp add: algebra_simps)
  then have "\<bar>round_ctx (r1 / A) * round_ctx (bp * A) - F\<bar> =
      \<bar>F\<bar> * \<bar>(1 + d1) * (1 + d2) * (1 + d3) - 1\<bar>"
    by (simp add: abs_mult)
  also have "\<dots> \<le> \<bar>F\<bar> * tolerance"
  proof (intro mult_left_mono)
    have "\<bar>(1 + d1) * (1 + d2) * (1 + d3) - 1\<bar> \<le> 5 * unit_roundoff"
      using d1(2) d2(2) d3(2) unit_roundoff_small(1) by (rule three_factors)
    then show "\<bar>(1 + d1) * (1 + d2) * (1 + d3) - 1\<bar> \<le> tolerance"
      using tolerance_covers unit_roundoff_small(2) by linarith
  qed simp
  finally show ?thesis by (simp add: mult.commute r1_def)
qed

lemma limit_sell_bound:
  "\<bar>round_ctx (round_ctx (F * sp) * B) - F * round_ctx (sp * B)\<bar>
     \<le> tolerance * \<bar>F * round_ctx (sp * B)\<bar>"
proof -
  define r1 where "r1 = round_ctx (F * sp)"
  define ord where "ord = round_ctx (sp * B)"
  obtain d1 where d1: "r1 = F * sp * (1 + d1)" "\<bar>d1\<bar> \<le> unit_roundoff"
    unfolding r1_def by (rule round_ctx_factor)
  obtain d2 where d2: "round_ctx (r1 * B) = r1 * B * (1 + d2)" "\<bar>d2\<bar> \<le> unit_roundoff"
    by (rule round_ctx_factor)
  obtain d3 where d3: "ord = sp * B * (1 + d3)" "\<bar>d3\<bar> \<le> unit_roundoff"
    unfolding ord_def by (rule round_ctx_factor)
  define X where "X = F * sp * B"
  have "round_ctx (r1 * B) = F * sp * (1 + d1) * B * (1 + d2)"
    by (simp only: d2(1)) (simp only: d1(1))
  then have c: "round_ctx (r1 * B) = X * ((1 + d1) * (1 + d2))"
    by (simp add: X_def algebra_simps)
  have o: "F * ord = X * (1 + d3)"
    by (simp only: d3(1)) (simp add: X_def algebra_simps)
  have two: "\<bar>(1 + d1) * (1 + d2) - 1\<bar> \<le> 3 * unit_roundoff"
    using d1(2) d2(2) unit_roundoff_small(1) by (rule two_factors)
  have "round_ctx (r1 * B) - F * ord = X * (((1 + d1) * (1 + d2) - 1) - d3)"
    by (simp only: c o) (simp add: algebra_simps)
  then have "\<bar>round_ctx (r1 * B) - F * ord\<bar> = \<bar>X\<bar> * \<bar>((1 + d1) * (1 + d2) - 1) - d3\<bar>"
    by (simp add: abs_mult)
  also have "\<dots> \<le> \<bar>X\<bar> * (4 * unit_roundoff)"
    using two d3(2) by (intro mult_left_mono) linarith+
  finally have lhs: "\<bar>round_ctx (r1 * B) - F * ord\<bar> \<le> \<bar>X\<bar> * (4 * unit_roundoff)" .
  have "1 / 2 \<le> \<bar>1 + d3\<bar>" using d3(2) unit_roundoff_small(1) by linarith
  then have "\<bar>X\<bar> * (1 / 2) \<le> \<bar>X\<bar> * \<bar>1 + d3\<bar>" by (intro mult_left_mono) simp_all
  then have half: "\<bar>X\<bar> \<le> 2 * \<bar>F * ord\<bar>" by (simp add: o abs_mult)
  have "\<bar>X\<bar> * (4 * unit_roundoff) \<le> (2 * \<bar>F * ord\<bar>) * (4 * unit_roundoff)"
    using half unit_roundoff_small(2) by (intro mult_right_mono) simp_all
  also have "\<dots> = (8 * unit_roundoff) * \<bar>F * ord\<bar>" by simp
  also have "\<dots> \<le> tolerance * \<bar>F * ord\<bar>"
    using tolerance_covers by (intro mult_right_mono) simp_all
  finally have "\<bar>round_ctx (r1 * B) - F * ord\<bar> \<le> tolerance * \<bar>F * ord\<bar>"
    using lhs by linarith
  then show ?thesis by (simp only: r1_def ord_def)
qed

text \<open>
  Claim C9, as stated, fails. In the end-to-end scenario the market buy leg of ETH_USD has
  \<^verbatim>\<open>order_rate = 506\<close> and \<^verbatim>\<open>calc_rate = 0.998 / 506\<close>, a quotient the decimal context rounds
  to 0.001972332015810276679841897233; its product with the order rate is
  0.997999999999999999999999999898, and 0.9979999999999999999999999999 as a decimal
  product, not \<^verbatim>\<open>1 - fee = 0.998\<close>.
\<close>

theorem normalization_not_exact:
  "get_pair_and_rate (MarketOrderArbCalculator (1 / 500) spec_tickers) ''ETH'' ''USD'' =
     Inr (Some leg_eth_usd_buy) \<and>
   side leg_eth_usd_buy = BUY \<and>
   dec_sub 1 (1 / 500) = 499 / 500 \<and>
   calc_rate leg_eth_usd_buy * order_rate leg_eth_usd_buy \<noteq> 499 / 500 \<and>
   dec_mul (calc_rate leg_eth_usd_buy) (order_rate leg_eth_usd_buy) \<noteq> 499 / 500"
  by (simp add: example_defs leg_defs dec_defs rt rn)

text \<open>
  Claim C9, amended. For every leg returned by either calculator the normalization relation
  holds up to the rounding of the decimal context: on a buy leg
  \<^verbatim>\<open>calc_rate * order_rate\<close> differs from \<^verbatim>\<open>1 - fee\<close> by at most \<open>10\<^sup>-\<^sup>2\<^sup>6\<close> of its size, on a sell
  leg \<^verbatim>\<open>calc_rate\<close> differs from \<^verbatim>\<open>(1 - fee) * order_rate\<close> by at most \<open>10\<^sup>-\<^sup>2\<^sup>6\<close> of its size.
  For the market calculator the relation is exact in the operations of the code: the
  \<^verbatim>\<open>calc_rate\<close> of a sell leg is the decimal product \<^verbatim>\<open>(1 - fee) * order_rate\<close> and that of a
  buy leg the decimal quotient \<^verbatim>\<open>(1 - fee) / order_rate\<close>.
\<close>

theorem normalization_up_to_rounding:
  assumes "get_pair_and_rate calc a b = Inr (Some leg)"
  shows "(side leg = BUY \<longrightarrow>
            \<bar>calc_rate leg * order_rate leg - dec_sub 1 (fee calc)\<bar>
              \<le> tolerance * \<bar>dec_sub 1 (fee calc)\<bar>) \<and>
         (side leg = SELL \<longrightarrow>
            \<bar>calc_rate leg - dec_sub 1 (fee calc) * order_rate leg\<bar>
              \<le> tolerance * \<bar>dec_sub 1 (fee calc) * order_rate leg\<bar>) \<and>
         (calc = MarketOrderArbCalculator f tk \<longrightarrow>
            (side leg = SELL \<longrightarrow> calc_rate leg = dec_mul (dec_sub 1 f) (order_rate leg)) \<and>
            (side leg = BUY \<longrightarrow> dec_div (dec_sub 1 f) (order_rate leg) = Inr (calc_rate leg)))"
proof (cases calc)
  case (MarketOrderArbCalculator f' tk')
  show ?thesis
    using assms market_buy_bound [of _ "dec_sub 1 f'"] market_sell_bound [of "dec_sub 1 f'"]
    by (auto simp: MarketOrderArbCalculator Let_def dec_div_def dec_mul_def round_ctx_zero
        split: option.splits if_splits)
next
  case (LimitOrderArbCalculator f' off tk')
  show ?thesis
    using assms limit_buy_bound [of _ "dec_add 1 off" "dec_sub 1 f'"]
      limit_sell_bound [of "dec_sub 1 f'" _ "dec_sub 1 off"]
    by (auto simp: LimitOrderArbCalculator Let_def dec_div_def dec_mul_def
        split: option.splits if_splits)
qed

theorem normalization_up_to_rounding_witness:
  "get_pair_and_rate (MarketOrderArbCalculator (1 / 500) spec_tickers) ''ETH'' ''USD'' =
     Inr (Some leg_eth_usd_buy) \<and>
   side leg_eth_usd_buy = BUY \<and>
   \<bar>calc_rate leg_eth_usd_buy * order_rate leg_eth_usd_buy - 499 / 500\<bar>
     \<le> tolerance * \<bar>499 / 500\<bar> \<and>
   dec_div (499 / 500) (order_rate leg_eth_usd_buy) = Inr (calc_rate leg_eth_usd_buy) \<and>
   get_pair_and_rate (MarketOrderArbCalculator (1 / 500) spec_tickers) ''USD'' ''ETH'' =
     Inr (Some leg_eth_usd_sell) \<and>
   side leg_eth_usd_sell = SELL \<and>
   calc_rate leg_eth_usd_sell = dec_mul (499 / 500) (order_rate leg_eth_usd_sell)"
proof -
  have b: "get_pair_and_rate (MarketOrderArbCalculator (1 / 500) spec_tickers) ''ETH'' ''USD'' =
      Inr (Some leg_eth_usd_buy)"
    by (simp add: example_defs leg_defs dec_defs rt)
  have s: "get_pair_and_rate (MarketOrderArbCalculator (1 / 500) spec_tickers) ''USD'' ''ETH'' =
      Inr (Some leg_eth_usd_sell)"
    by (simp add: example_defs leg_defs dec_defs rt)
  have sb: "side leg_eth_usd_buy = BUY" by (simp add: leg_defs)
  have ss: "side leg_eth_usd_sell = SELL" by (simp add: leg_defs)
  have f: "dec_sub 1 (1 / 500) = 499 / 500" by (simp add: dec_sub_def rt)
  note nb = normalization_up_to_rounding [OF b, of "1 / 500" spec_tickers]
  note ns = normalization_up_to_rounding [OF s, of "1 / 500" spec_tickers]
  have 1: "\<bar>calc_rate leg_eth_usd_buy * order_rate leg_eth_usd_buy - 499 / 500\<bar>
      \<le> tolerance * \<bar>499 / 500\<bar>"
    using nb [THEN conjunct1, rule_format, OF sb] by (simp only: fee.simps f)
  have 2: "dec_div (499 / 500) (order_rate leg_eth_usd_buy) = Inr (calc_rate leg_eth_usd_buy)"
    using nb [THEN conjunct2, THEN conjunct2, rule_format, OF refl, THEN conjunct2, rule_format,
        OF sb]
    by (simp only: f)
  have 3: "calc_rate leg_eth_usd_sell = dec_mul (499 / 500) (order_rate leg_eth_usd_sell)"
    using ns [THEN conjunct2, THEN conjunct2, rule_format, OF refl, THEN conjunct1, rule_format,
        OF ss]
    by (simp only: f)
  from b s sb ss 1 2 3 show ?thesis by blast
qed

end
